theory Spec2Isabelle
  imports Complex_Main "HOL-Library.Monad_Syntax" "HOL-Library.Word"
begin

section \<open>meshpy: viewsphere discretization, virtual camera and stable poses\<close>

text \<open>
  A shallow embedding of \<^verbatim>\<open>meshpy/mesh_renderer.py\<close> and \<^verbatim>\<open>meshpy/stable_pose.py\<close>.
  Floating-point numbers are modelled as \<^typ>\<open>real\<close> (exact arithmetic), counts as
  \<^typ>\<open>int\<close>; the bounds of the discretizer are floats, as its docstring says, so every
  division is a true division. Python exceptions are values of the type \<open>error\<close>; a
  loop that may run forever returns \<open>None\<close>. \<^verbatim>\<open>cart2sph\<close> has a second model, on Python
  floats with their range, infinities and NaN.
\<close>

subsection \<open>Errors\<close>

datatype error =
    ValueError string
  | ZeroDivisionError
  | UnboundLocalError string
  | OverflowError

subsection \<open>numpy: 3-vectors and 3x3 matrices\<close>

text \<open>A 3x3 array is the triple of its rows, as numpy prints it.\<close>

type_synonym vec3 = "real \<times> real \<times> real"
type_synonym mat3 = "vec3 \<times> vec3 \<times> vec3"

fun norm3 :: "vec3 \<Rightarrow> real" where
  "norm3 (x, y, z) = sqrt (x\<^sup>2 + y\<^sup>2 + z\<^sup>2)"

fun vneg :: "vec3 \<Rightarrow> vec3" where
  "vneg (x, y, z) = (- x, - y, - z)"

fun vdiv :: "vec3 \<Rightarrow> real \<Rightarrow> vec3" where
  "vdiv (x, y, z) c = (x / c, y / c, z / c)"

fun vdot :: "vec3 \<Rightarrow> vec3 \<Rightarrow> real" where
  "vdot (a1, a2, a3) (b1, b2, b3) = a1 * b1 + a2 * b2 + a3 * b3"

fun cross :: "vec3 \<Rightarrow> vec3 \<Rightarrow> vec3" where
  "cross (a1, a2, a3) (b1, b2, b3) =
     (a2 * b3 - a3 * b2, a3 * b1 - a1 * b3, a1 * b2 - a2 * b1)"

text \<open>\<^verbatim>\<open>np.c_[x, y, z]\<close>: the matrix whose columns are the three vectors.\<close>

fun np_c :: "vec3 \<Rightarrow> vec3 \<Rightarrow> vec3 \<Rightarrow> mat3" where
  "np_c (x1, x2, x3) (y1, y2, y3) (z1, z2, z3) =
     ((x1, y1, z1), (x2, y2, z2), (x3, y3, z3))"

fun transpose3 :: "mat3 \<Rightarrow> mat3" where
  "transpose3 (r1, r2, r3) = np_c r1 r2 r3"

fun mat_vec :: "mat3 \<Rightarrow> vec3 \<Rightarrow> vec3" where
  "mat_vec (r1, r2, r3) v = (vdot r1 v, vdot r2 v, vdot r3 v)"

fun mat_dot :: "mat3 \<Rightarrow> mat3 \<Rightarrow> mat3" where
  "mat_dot (r1, r2, r3) B =
     (let Bt = transpose3 B in (mat_vec Bt r1, mat_vec Bt r2, mat_vec Bt r3))"

fun mat_neg :: "mat3 \<Rightarrow> mat3" where
  "mat_neg (r1, r2, r3) = (vneg r1, vneg r2, vneg r3)"

fun det3 :: "mat3 \<Rightarrow> real" where
  "det3 ((a, b, c), (d, e, f), (g, h, i)) =
     a * (e * i - f * h) - b * (d * i - f * g) + c * (d * h - e * g)"

definition eye3 :: mat3 where
  "eye3 = ((1, 0, 0), (0, 1, 0), (0, 0, 1))"

definition zeros3 :: vec3 where
  "zeros3 = (0, 0, 0)"

definition orthonormal :: "mat3 \<Rightarrow> bool" where
  "orthonormal R = (mat_dot (transpose3 R) R = eye3)"

text \<open>
  Two notions that only the proofs use: the scalar multiple and the adjugate of a matrix.
\<close>

fun smul :: "real \<Rightarrow> mat3 \<Rightarrow> mat3" where
  "smul k ((a, b, c), (d, e, f), (g, h, i)) =
     ((k * a, k * b, k * c), (k * d, k * e, k * f), (k * g, k * h, k * i))"

fun adj3 :: "mat3 \<Rightarrow> mat3" where
  "adj3 ((a, b, c), (d, e, f), (g, h, i)) =
     ((e * i - f * h, c * h - b * i, b * f - c * e),
      (f * g - d * i, a * i - c * g, c * d - a * f),
      (d * h - e * g, b * g - a * h, a * e - b * d))"

subsection \<open>RigidTransform (alan.core)\<close>

text \<open>
  Modelled from the spec: the class \<^verbatim>\<open>RigidTransform\<close> of the external package
  \<^verbatim>\<open>alan.core\<close>, which is imported by the sources but is not part of them. The spec (section 3)
  gives it a rotation, a translation and named source and target frames; composition is the
  product of the homogeneous 4x4 forms, inversion is the transposed rotation with the negated,
  rotated translation. The library's own argument checks are not described by the spec and
  are not modelled.
\<close>

record RigidTransform =
  rotation :: mat3
  translation :: vec3
  from_frame :: string
  to_frame :: string

fun vadd :: "vec3 \<Rightarrow> vec3 \<Rightarrow> vec3" where
  "vadd (a1, a2, a3) (b1, b2, b3) = (a1 + b1, a2 + b2, a3 + b3)"

text \<open>
  Modelled from the spec: \<^verbatim>\<open>RigidTransform.inverse\<close>, the transposed rotation with the
  negated, rotated translation, between the swapped frames.
\<close>

definition inverse_tf :: "RigidTransform \<Rightarrow> RigidTransform" where
  "inverse_tf T =
     \<lparr> rotation = transpose3 (rotation T),
       translation = mat_vec (mat_neg (transpose3 (rotation T))) (translation T),
       from_frame = to_frame T,
       to_frame = from_frame T \<rparr>"

text \<open>
  Modelled from the spec: \<^verbatim>\<open>RigidTransform.dot\<close>, the product of the homogeneous forms,
  from the source frame of the right factor to the target frame of the left one.
\<close>

definition dot_tf :: "RigidTransform \<Rightarrow> RigidTransform \<Rightarrow> RigidTransform" where
  "dot_tf T other =
     \<lparr> rotation = mat_dot (rotation T) (rotation other),
       translation = vadd (mat_vec (rotation T) (translation other)) (translation T),
       from_frame = from_frame other,
       to_frame = to_frame T \<rparr>"

subsection \<open>StablePose\<close>

text \<open>The identifier is a string, or the integer default \<open>-1\<close> of the constructor.\<close>

datatype pose_id = IdStr string | IdInt int

text \<open>
  The attributes \<^verbatim>\<open>p\<close>, \<^verbatim>\<open>r\<close>, \<^verbatim>\<open>x0\<close> and \<^verbatim>\<open>id\<close>, prefixed so that they do not
  capture variable names and the identity function of HOL.
\<close>

record StablePose =
  stp_p :: real
  stp_r :: mat3
  stp_x0 :: vec3
  stp_id :: pose_id

text \<open>\<^verbatim>\<open>self.r[1,:] = -self.r[1,:]\<close>: the row with index 1 changes sign.\<close>

fun negate_row1 :: "mat3 \<Rightarrow> mat3" where
  "negate_row1 (r0, r1, r2) = (r0, vneg r1, r2)"

text \<open>
  The constructor. Its first argument stands for \<^verbatim>\<open>np.linalg.det\<close>, the determinant as numpy
  computes it, which is external: on floats it is the exact determinant up to rounding, and
  the guard of the source is evaluated on the computed value. For a double \<open>d\<close> the float
  test \<^verbatim>\<open>abs(d + 1) < 0.01\<close> has the same truth value as \<open>|d + 1| < 1/100\<close> over the reals:
  where \<open>|d + 1|\<close> is below the double nearest to \<open>1/100\<close> the sum \<open>d + 1\<close> is exact, and
  no double \<open>d\<close> puts \<open>|d + 1|\<close> between \<open>1/100\<close> and that double.
\<close>

definition StablePose_init ::
  "(mat3 \<Rightarrow> real) \<Rightarrow> real \<Rightarrow> mat3 \<Rightarrow> vec3 \<Rightarrow> pose_id \<Rightarrow> StablePose" where
  "StablePose_init linalg_det p r x0 id' =
     (let self = \<lparr> stp_p = p, stp_r = r, stp_x0 = x0, stp_id = id' \<rparr>
      in if \<bar>linalg_det (stp_r self) + 1\<bar> < 0.01
         then self \<lparr> stp_r := negate_row1 (stp_r self) \<rparr>
         else self)"

definition T_obj_table :: "StablePose \<Rightarrow> RigidTransform" where
  "T_obj_table self =
     \<lparr> rotation = stp_r self, translation = zeros3,
       from_frame = ''obj'', to_frame = ''table'' \<rparr>"

subsection \<open>ViewsphereDiscretizer\<close>

record ViewsphereDiscretizer =
  min_radius :: real
  max_radius :: real
  num_radii :: int
  min_az :: real
  max_az :: real
  num_az :: int
  min_elev :: real
  max_elev :: real
  num_elev :: int
  min_roll :: real
  max_roll :: real
  num_roll :: int

text \<open>
  The constructor; the spec calls its \<^verbatim>\<open>ValueError\<close> an \<open>InvalidDiscretization\<close> error.
  The arguments come in the order of the Python signature.
\<close>

definition ViewsphereDiscretizer_init ::
  "real \<Rightarrow> real \<Rightarrow> int \<Rightarrow> real \<Rightarrow> real \<Rightarrow> int \<Rightarrow> real \<Rightarrow> real \<Rightarrow> int \<Rightarrow> real \<Rightarrow> real \<Rightarrow> int
     \<Rightarrow> error + ViewsphereDiscretizer" where
  "ViewsphereDiscretizer_init min_radius' max_radius' num_radii'
       min_elev' max_elev' num_elev' min_az' max_az' num_az' min_roll' max_roll' num_roll' =
     (if num_radii' < 1 \<or> num_az' < 1 \<or> num_elev' < 1
      then Inl (ValueError ''Discretization must be at least one in each dimension'')
      else Inr \<lparr> min_radius = min_radius', max_radius = max_radius', num_radii = num_radii',
                 min_az = min_az', max_az = max_az', num_az = num_az',
                 min_elev = min_elev', max_elev = max_elev', num_elev = num_elev',
                 min_roll = min_roll', max_roll = max_roll', num_roll = num_roll' \<rparr>)"

text \<open>
  The step of the two inclusive loops (radius, elevation). The division is reached only with
  \<open>max \<noteq> min\<close> and \<open>num \<noteq> 1\<close>, so its divisor is not zero.
\<close>

definition inclusive_inc :: "real \<Rightarrow> real \<Rightarrow> int \<Rightarrow> real" where
  "inclusive_inc lo hi num =
     (if hi = lo then 1
      else if num = 1 then hi - lo + 1
      else (hi - lo) / real_of_int (num - 1))"

definition sph2cart :: "real \<Rightarrow> real \<Rightarrow> real \<Rightarrow> vec3" where
  "sph2cart rad az elev =
     (rad * cos az * sin elev, rad * sin az * sin elev, rad * cos elev)"

text \<open>
  The eight branches of the \<^verbatim>\<open>if/elif\<close> chain of \<^verbatim>\<open>cart2sph\<close> as data, each guard with
  the azimuth it assigns, in the order of the source; and the guards alone.
\<close>

definition cart2sph_branches :: "real \<Rightarrow> real \<Rightarrow> (bool \<times> real) list" where
  "cart2sph_branches x y =
     [(x > 0 \<and> y > 0, arctan (y / x)),
      (x > 0 \<and> y < 0, 2 * pi - arctan (- y / x)),
      (x < 0 \<and> y > 0, pi - arctan (- y / x)),
      (x < 0 \<and> y < 0, pi + arctan (y / x)),
      (x = 0 \<and> y > 0, pi / 2),
      (x = 0 \<and> y < 0, 3 * pi / 2),
      (y = 0 \<and> x > 0, 0),
      (y = 0 \<and> x < 0, pi)]"

definition cart2sph_guards :: "real \<Rightarrow> real \<Rightarrow> bool list" where
  "cart2sph_guards x y = map fst (cart2sph_branches x y)"

text \<open>
  The chain has no \<^verbatim>\<open>else\<close>: where no guard holds the local variable \<^verbatim>\<open>az\<close> stays unbound
  (\<open>None\<close>), and the \<^verbatim>\<open>return\<close> statement that reads it raises \<^verbatim>\<open>UnboundLocalError\<close>.
\<close>

definition cart2sph_az :: "real \<Rightarrow> real \<Rightarrow> real option" where
  "cart2sph_az x y =
     (if x > 0 \<and> y > 0 then Some (arctan (y / x))
      else if x > 0 \<and> y < 0 then Some (2 * pi - arctan (- y / x))
      else if x < 0 \<and> y > 0 then Some (pi - arctan (- y / x))
      else if x < 0 \<and> y < 0 then Some (pi + arctan (y / x))
      else if x = 0 \<and> y > 0 then Some (pi / 2)
      else if x = 0 \<and> y < 0 then Some (3 * pi / 2)
      else if y = 0 \<and> x > 0 then Some 0
      else if y = 0 \<and> x < 0 then Some pi
      else None)"

definition cart2sph :: "real \<Rightarrow> real \<Rightarrow> real \<Rightarrow> error + (real \<times> real \<times> real)" where
  "cart2sph x y z =
     (let rad = sqrt (x\<^sup>2 + y\<^sup>2 + z\<^sup>2);
          az = cart2sph_az x y;
          elev = arccos (z / rad)
      in case az of
           None \<Rightarrow> Inl (UnboundLocalError ''az'')
         | Some az' \<Rightarrow> Inr (rad, az', elev))"

text \<open>
  \<^verbatim>\<open>cart2sph\<close> on the arguments it can receive as Python floats: finite values, the two
  infinities and NaN. This second model keeps what decides whether the call returns. A
  comparison with NaN is false. \<^verbatim>\<open>x**2\<close> on a finite Python float raises \<^verbatim>\<open>OverflowError\<close>
  when the square leaves the range of a double, that is, when it rounds to infinity. Sums and
  quotients that leave the range become infinities, and the numpy functions return NaN
  outside their domain, without raising. A Python float division raises
  \<^verbatim>\<open>ZeroDivisionError\<close> on a zero divisor; the division by \<^verbatim>\<open>r\<close>, a numpy value, does not.
  Rounding inside the range and the sign of zero are not modelled: there the operations
  are those of the reals, as in \<open>cart2sph\<close> above.
\<close>

datatype pyfloat = Finite real | PosInf | NegInf | NaN

text \<open>Under round-to-nearest a magnitude of at least \<open>2^1024 - 2^970\<close> rounds to infinity.\<close>

definition overflow_bound :: real where
  "overflow_bound = 2 ^ 1024 - 2 ^ 970"

definition in_range :: "real \<Rightarrow> pyfloat" where
  "in_range v =
     (if overflow_bound \<le> v then PosInf
      else if v \<le> - overflow_bound then NegInf
      else Finite v)"

fun py_square :: "pyfloat \<Rightarrow> error + pyfloat" where
  "py_square (Finite a) =
     (if overflow_bound \<le> a\<^sup>2 then Inl OverflowError else Inr (Finite (a\<^sup>2)))"
| "py_square PosInf = Inr PosInf"
| "py_square NegInf = Inr PosInf"
| "py_square NaN = Inr NaN"

fun py_neg :: "pyfloat \<Rightarrow> pyfloat" where
  "py_neg (Finite a) = Finite (- a)"
| "py_neg PosInf = NegInf"
| "py_neg NegInf = PosInf"
| "py_neg NaN = NaN"

fun py_add :: "pyfloat \<Rightarrow> pyfloat \<Rightarrow> pyfloat" where
  "py_add (Finite a) (Finite b) = in_range (a + b)"
| "py_add NaN v = NaN"
| "py_add v NaN = NaN"
| "py_add PosInf NegInf = NaN"
| "py_add NegInf PosInf = NaN"
| "py_add PosInf v = PosInf"
| "py_add v PosInf = PosInf"
| "py_add NegInf v = NegInf"
| "py_add v NegInf = NegInf"

definition py_sub :: "pyfloat \<Rightarrow> pyfloat \<Rightarrow> pyfloat" where
  "py_sub v w = py_add v (py_neg w)"

fun py_gt0 :: "pyfloat \<Rightarrow> bool" where
  "py_gt0 (Finite a) = (a > 0)"
| "py_gt0 PosInf = True"
| "py_gt0 NegInf = False"
| "py_gt0 NaN = False"

fun py_lt0 :: "pyfloat \<Rightarrow> bool" where
  "py_lt0 (Finite a) = (a < 0)"
| "py_lt0 PosInf = False"
| "py_lt0 NegInf = True"
| "py_lt0 NaN = False"

fun py_eq0 :: "pyfloat \<Rightarrow> bool" where
  "py_eq0 (Finite a) = (a = 0)"
| "py_eq0 PosInf = False"
| "py_eq0 NegInf = False"
| "py_eq0 NaN = False"

text \<open>The quotient as numpy computes it; a zero divisor counts as \<open>+0\<close>.\<close>

fun np_divide :: "pyfloat \<Rightarrow> pyfloat \<Rightarrow> pyfloat" where
  "np_divide (Finite a) (Finite b) =
     (if b = 0 then (if a = 0 then NaN else if a > 0 then PosInf else NegInf)
      else in_range (a / b))"
| "np_divide NaN w = NaN"
| "np_divide v NaN = NaN"
| "np_divide (Finite a) w = Finite 0"
| "np_divide PosInf (Finite b) = (if b < 0 then NegInf else PosInf)"
| "np_divide NegInf (Finite b) = (if b < 0 then PosInf else NegInf)"
| "np_divide v w = NaN"

text \<open>The quotient of two Python floats.\<close>

definition py_div :: "pyfloat \<Rightarrow> pyfloat \<Rightarrow> error + pyfloat" where
  "py_div v w = (if py_eq0 w then Inl ZeroDivisionError else Inr (np_divide v w))"

fun np_sqrt :: "pyfloat \<Rightarrow> pyfloat" where
  "np_sqrt (Finite a) = (if a < 0 then NaN else Finite (sqrt a))"
| "np_sqrt PosInf = PosInf"
| "np_sqrt NegInf = NaN"
| "np_sqrt NaN = NaN"

fun np_arctan :: "pyfloat \<Rightarrow> pyfloat" where
  "np_arctan (Finite a) = Finite (arctan a)"
| "np_arctan PosInf = Finite (pi / 2)"
| "np_arctan NegInf = Finite (- (pi / 2))"
| "np_arctan NaN = NaN"

fun np_arccos :: "pyfloat \<Rightarrow> pyfloat" where
  "np_arccos (Finite a) = (if - 1 \<le> a \<and> a \<le> 1 then Finite (arccos a) else NaN)"
| "np_arccos PosInf = NaN"
| "np_arccos NegInf = NaN"
| "np_arccos NaN = NaN"

definition cart2sph_py_guards :: "pyfloat \<Rightarrow> pyfloat \<Rightarrow> bool list" where
  "cart2sph_py_guards x y =
     [py_gt0 x \<and> py_gt0 y, py_gt0 x \<and> py_lt0 y, py_lt0 x \<and> py_gt0 y, py_lt0 x \<and> py_lt0 y,
      py_eq0 x \<and> py_gt0 y, py_eq0 x \<and> py_lt0 y, py_eq0 y \<and> py_gt0 x, py_eq0 y \<and> py_lt0 x]"

definition cart2sph_az_py :: "pyfloat \<Rightarrow> pyfloat \<Rightarrow> error + pyfloat option" where
  "cart2sph_az_py x y =
     (if py_gt0 x \<and> py_gt0 y
      then map_sum id (\<lambda>q. Some (np_arctan q)) (py_div y x)
      else if py_gt0 x \<and> py_lt0 y
      then map_sum id (\<lambda>q. Some (py_sub (Finite (2 * pi)) (np_arctan q))) (py_div (py_neg y) x)
      else if py_lt0 x \<and> py_gt0 y
      then map_sum id (\<lambda>q. Some (py_sub (Finite pi) (np_arctan q))) (py_div (py_neg y) x)
      else if py_lt0 x \<and> py_lt0 y
      then map_sum id (\<lambda>q. Some (py_add (Finite pi) (np_arctan q))) (py_div y x)
      else if py_eq0 x \<and> py_gt0 y then Inr (Some (Finite (pi / 2)))
      else if py_eq0 x \<and> py_lt0 y then Inr (Some (Finite (3 * pi / 2)))
      else if py_eq0 y \<and> py_gt0 x then Inr (Some (Finite 0))
      else if py_eq0 y \<and> py_lt0 x then Inr (Some (Finite pi))
      else Inr None)"

definition cart2sph_py ::
  "pyfloat \<Rightarrow> pyfloat \<Rightarrow> pyfloat \<Rightarrow> error + (pyfloat \<times> pyfloat \<times> pyfloat)" where
  "cart2sph_py x y z =
     (case py_square x of Inl e \<Rightarrow> Inl e | Inr x2 \<Rightarrow>
      case py_square y of Inl e \<Rightarrow> Inl e | Inr y2 \<Rightarrow>
      case py_square z of Inl e \<Rightarrow> Inl e | Inr z2 \<Rightarrow>
        let rad = np_sqrt (py_add (py_add x2 y2) z2)
        in case cart2sph_az_py x y of Inl e \<Rightarrow> Inl e | Inr az \<Rightarrow>
             let elev = np_arccos (np_divide z rad)
             in case az of
                  None \<Rightarrow> Inl (UnboundLocalError ''az'')
                | Some az' \<Rightarrow> Inr (rad, az', elev))"

text \<open>
  The body of the innermost loop, split at its comments: the viewing axis, the canonical
  x and y axes, the roll matrix, and the pose that is appended. For a camera centre of norm
  zero numpy divides zero by zero and continues with NaN entries; the division of HOL
  returns 0 there, so the model says nothing about the program at a radius of zero, and
  the statements below that depend on the entries exclude it.
\<close>

definition camera_z_obj :: "vec3 \<Rightarrow> vec3" where
  "camera_z_obj camera_center_obj = vdiv (vneg camera_center_obj) (norm3 camera_center_obj)"

definition camera_xy_par_obj :: "vec3 \<Rightarrow> vec3 \<times> vec3" where
  "camera_xy_par_obj cz =
     (let cx = (fst (snd cz), - fst cz, 0);
          cx = (if norm3 cx = 0 then (1, 0, 0) else cx);
          cx = vdiv cx (norm3 cx);
          cy = cross cz cx;
          cy = vdiv cy (norm3 cy)
      in if snd (snd cy) > 0
         then (let cx = vneg cx;
                   cy = cross cz cx;
                   cy = vdiv cy (norm3 cy)
               in (cx, cy))
         else (cx, cy))"

definition R_camera_par_camera :: "real \<Rightarrow> mat3" where
  "R_camera_par_camera roll =
     ((cos roll, - sin roll, 0), (sin roll, cos roll, 0), (0, 0, 1))"

definition camera_pose :: "real \<Rightarrow> real \<Rightarrow> real \<Rightarrow> real \<Rightarrow> RigidTransform" where
  "camera_pose radius az elev roll =
     (let camera_center_obj = sph2cart radius az elev;
          cz = camera_z_obj camera_center_obj;
          (cx, cy) = camera_xy_par_obj cz;
          R_obj_camera_par = np_c cx cy cz;
          R_obj_camera = mat_dot R_obj_camera_par (R_camera_par_camera roll);
          t_obj_camera = camera_center_obj;
          T_obj_camera = \<lparr> rotation = R_obj_camera, translation = t_obj_camera,
                           from_frame = ''camera'', to_frame = ''obj'' \<rparr>
      in inverse_tf T_obj_camera)"

text \<open>
  The four nested \<^verbatim>\<open>while\<close> loops. Each takes the list built so far and returns it
  extended; \<open>None\<close> means that the loop does not return.
\<close>

partial_function (option) roll_loop ::
  "ViewsphereDiscretizer \<Rightarrow> real \<Rightarrow> real \<Rightarrow> real \<Rightarrow> real \<Rightarrow> real
     \<Rightarrow> RigidTransform list \<Rightarrow> RigidTransform list option" where
  "roll_loop self roll_inc radius elev az roll poses =
     (if roll < max_roll self
      then roll_loop self roll_inc radius elev az (roll + roll_inc)
             (poses @ [camera_pose radius az elev roll])
      else Some poses)"

partial_function (option) az_loop ::
  "ViewsphereDiscretizer \<Rightarrow> real \<Rightarrow> real \<Rightarrow> real \<Rightarrow> real \<Rightarrow> real
     \<Rightarrow> RigidTransform list \<Rightarrow> RigidTransform list option" where
  "az_loop self az_inc roll_inc radius elev az poses =
     (if az < max_az self
      then do {
        poses' \<leftarrow> roll_loop self roll_inc radius elev az (min_roll self) poses;
        az_loop self az_inc roll_inc radius elev (az + az_inc) poses'
      }
      else Some poses)"

partial_function (option) elev_loop ::
  "ViewsphereDiscretizer \<Rightarrow> real \<Rightarrow> real \<Rightarrow> real \<Rightarrow> real \<Rightarrow> real
     \<Rightarrow> RigidTransform list \<Rightarrow> RigidTransform list option" where
  "elev_loop self elev_inc az_inc roll_inc radius elev poses =
     (if elev \<le> max_elev self
      then do {
        poses' \<leftarrow> az_loop self az_inc roll_inc radius elev (min_az self) poses;
        elev_loop self elev_inc az_inc roll_inc radius (elev + elev_inc) poses'
      }
      else Some poses)"

partial_function (option) radius_loop ::
  "ViewsphereDiscretizer \<Rightarrow> real \<Rightarrow> real \<Rightarrow> real \<Rightarrow> real \<Rightarrow> real
     \<Rightarrow> RigidTransform list \<Rightarrow> RigidTransform list option" where
  "radius_loop self radius_inc elev_inc az_inc roll_inc radius poses =
     (if radius \<le> max_radius self
      then do {
        poses' \<leftarrow> elev_loop self elev_inc az_inc roll_inc radius (min_elev self) poses;
        radius_loop self radius_inc elev_inc az_inc roll_inc (radius + radius_inc) poses'
      }
      else Some poses)"

text \<open>
  \<^verbatim>\<open>object_to_camera_poses\<close>: the four increments in the order of the source, a division by
  a zero count raising \<^verbatim>\<open>ZeroDivisionError\<close>, then the loops. The result is \<open>None\<close> when the
  loops do not return, \<open>Some (Inl e)\<close> when the call raises, \<open>Some (Inr poses)\<close> otherwise.
\<close>

definition object_to_camera_poses ::
  "ViewsphereDiscretizer \<Rightarrow> (error + RigidTransform list) option" where
  "object_to_camera_poses self =
     (let radius_inc = inclusive_inc (min_radius self) (max_radius self) (num_radii self)
      in if num_az self = 0 then Some (Inl ZeroDivisionError)
      else
        let az_inc = (max_az self - min_az self) / real_of_int (num_az self);
            elev_inc = inclusive_inc (min_elev self) (max_elev self) (num_elev self)
        in if num_roll self = 0 then Some (Inl ZeroDivisionError)
        else
          let roll_inc = (max_roll self - min_roll self) / real_of_int (num_roll self)
          in map_option Inr
               (radius_loop self radius_inc elev_inc az_inc roll_inc (min_radius self) []))"

text \<open>
  Specification side, from the spec's description of the output: the number of samples that
  an inclusive loop (radius, elevation) and a half-open loop (azimuth, roll) realise, and
  the grid of poses with the radius outermost, then elevation, azimuth, and the roll innermost.
\<close>

definition spec_inclusive_count :: "real \<Rightarrow> real \<Rightarrow> int \<Rightarrow> nat" where
  "spec_inclusive_count lo hi num = (if hi < lo then 0 else if hi = lo then 1 else nat num)"

definition spec_halfopen_count :: "real \<Rightarrow> real \<Rightarrow> int \<Rightarrow> nat" where
  "spec_halfopen_count lo hi num = (if lo < hi then nat num else 0)"

definition spec_grid :: "ViewsphereDiscretizer \<Rightarrow> RigidTransform list" where
  "spec_grid self =
     (let radius_inc = inclusive_inc (min_radius self) (max_radius self) (num_radii self);
          elev_inc = inclusive_inc (min_elev self) (max_elev self) (num_elev self);
          az_inc = (max_az self - min_az self) / real_of_int (num_az self);
          roll_inc = (max_roll self - min_roll self) / real_of_int (num_roll self)
      in [camera_pose (min_radius self + real i * radius_inc) (min_az self + real k * az_inc)
                      (min_elev self + real j * elev_inc) (min_roll self + real l * roll_inc).
            i \<leftarrow> [0 ..< spec_inclusive_count (min_radius self) (max_radius self) (num_radii self)],
            j \<leftarrow> [0 ..< spec_inclusive_count (min_elev self) (max_elev self) (num_elev self)],
            k \<leftarrow> [0 ..< spec_halfopen_count (min_az self) (max_az self) (num_az self)],
            l \<leftarrow> [0 ..< spec_halfopen_count (min_roll self) (max_roll self) (num_roll self)]])"

text \<open>
  The count in the wording of claim C2: azimuth and roll contribute their configured
  number also when their interval is empty.
\<close>

definition claimed_pose_count :: "ViewsphereDiscretizer \<Rightarrow> nat" where
  "claimed_pose_count self =
     (if min_radius self = max_radius self then 1 else nat (num_radii self)) *
     (if min_elev self = max_elev self then 1 else nat (num_elev self)) *
     nat (num_az self) * nat (num_roll self)"

subsection \<open>VirtualCamera\<close>

text \<open>
  Modelled from the spec: the camera intrinsics, the mesh, the render modes, the image
  wrappers and \<^verbatim>\<open>meshrender.render_mesh\<close>, which belong to external packages (spec, section 6).
  Of the intrinsics and the mesh the model keeps the attributes that the sources read. The
  rasterizer is a parameter of the functions that call it: a function from the projection
  matrices, the image size, the mesh arrays and the debug flag to the two image sequences.
  The constructor of \<^verbatim>\<open>VirtualCamera\<close> only checks the class of its argument, which the type
  of the field expresses.
\<close>

record CameraIntrinsics =
  proj_matrix :: mat3
  height :: nat
  width :: nat
  frame :: string

record VirtualCamera =
  camera_intr :: CameraIntrinsics

record Mesh3D =
  vertices :: "vec3 list"
  triangles :: "(int \<times> int \<times> int) list"

text \<open>A 3x4 array \<open>[M | v]\<close> is the pair of its 3x3 block and its last column.\<close>

type_synonym mat34 = "mat3 \<times> vec3"

type_synonym tri_uint32 = "32 word \<times> 32 word \<times> 32 word"

text \<open>
  A raw binary image has three 8-bit channels for each pixel; a raw depth image has one
  number for each pixel.
\<close>

type_synonym binary_im = "(8 word \<times> 8 word \<times> 8 word) list list"
type_synonym depth_im = "real list list"

type_synonym renderer =
  "mat34 list \<Rightarrow> nat \<Rightarrow> nat \<Rightarrow> vec3 list \<Rightarrow> tri_uint32 list \<Rightarrow> bool
     \<Rightarrow> binary_im list \<times> depth_im list"

datatype RenderMode = SEGMASK | DEPTH | SCALED_DEPTH | COLOR | OtherMode string

text \<open>
  The wrapped images: \<^verbatim>\<open>BinaryImage(data, frame)\<close>, \<^verbatim>\<open>DepthImage(data, frame)\<close>, and the
  result of the external \<^verbatim>\<open>to_color\<close> of a depth image, which is kept symbolic.
\<close>

datatype wrapped_image =
    BinaryImage "8 word list list" string
  | DepthImage depth_im string
  | ToColor wrapped_image

text \<open>\<^verbatim>\<open>ObjectRender(image, T_camera_obj)\<close>; the first field is renamed, \<open>image\<close> is taken in HOL.\<close>

record ObjectRender =
  rendered_image :: wrapped_image
  T_camera_obj :: RigidTransform

datatype log_record =
    DebugRenderingTook
  | WarningNotSupported RenderMode

text \<open>\<^verbatim>\<open>binary_im[:,:,0]\<close>: the first channel of every pixel.\<close>

definition channel0 :: "binary_im \<Rightarrow> 8 word list list" where
  "channel0 im = map (map fst) im"

definition astype_uint32 :: "(int \<times> int \<times> int) list \<Rightarrow> tri_uint32 list" where
  "astype_uint32 tris = map (\<lambda>(a, b, c). (word_of_int a, word_of_int b, word_of_int c)) tris"

text \<open>\<^verbatim>\<open>proj_matrix.dot(np.c_[R, t])\<close>, the product of a 3x3 with a 3x4 array.\<close>

definition projection :: "CameraIntrinsics \<Rightarrow> RigidTransform \<Rightarrow> mat34" where
  "projection intr T =
     (mat_dot (proj_matrix intr) (rotation T), mat_vec (proj_matrix intr) (translation T))"

definition images ::
  "renderer \<Rightarrow> VirtualCamera \<Rightarrow> Mesh3D \<Rightarrow> RigidTransform list \<Rightarrow> bool
     \<Rightarrow> log_record list \<times> binary_im list \<times> depth_im list" where
  "images render_mesh self mesh object_to_camera_poses' debug =
     (let vertex_arr = vertices mesh;
          tri_arr = astype_uint32 (triangles mesh);
          projections = map (projection (camera_intr self)) object_to_camera_poses';
          (binary_ims, depth_ims) =
             render_mesh projections (height (camera_intr self)) (width (camera_intr self))
               vertex_arr tri_arr debug
      in ([DebugRenderingTook], binary_ims, depth_ims))"

text \<open>
  The caller's list holds references to transform objects. The store maps each reference to
  the object it points to; \<^verbatim>\<open>copy.copy\<close> of the list copies the references, not the objects.
\<close>

type_synonym ref = nat
type_synonym store = "ref \<Rightarrow> RigidTransform"

text \<open>
  The loop over \<^verbatim>\<open>stp_to_camera_poses\<close>: it assigns \<^verbatim>\<open>from_frame\<close> of the object behind
  each reference and appends the product with \<^verbatim>\<open>T_obj_stp\<close>, a new object.
\<close>

fun premultiply_loop ::
  "RigidTransform \<Rightarrow> ref list \<Rightarrow> store \<Rightarrow> RigidTransform list
     \<Rightarrow> store \<times> RigidTransform list" where
  "premultiply_loop T_obj_stp [] h acc = (h, acc)"
| "premultiply_loop T_obj_stp (T_stp_camera # rest) h acc =
     (let h' = h(T_stp_camera := (h T_stp_camera)\<lparr>from_frame := ''stp''\<rparr>)
      in premultiply_loop T_obj_stp rest h' (acc @ [dot_tf (h' T_stp_camera) T_obj_stp]))"

text \<open>
  The transforms that \<^verbatim>\<open>wrapped_images\<close> hands to \<^verbatim>\<open>images\<close>, with the store after the
  optional pre-multiplication.
\<close>

definition premultiply ::
  "store \<Rightarrow> ref list \<Rightarrow> StablePose option \<Rightarrow> store \<times> RigidTransform list" where
  "premultiply h object_to_camera_poses' stable_pose =
     (case stable_pose of
        None \<Rightarrow> (h, map h object_to_camera_poses')
      | Some sp \<Rightarrow>
          (let T_obj_stp = \<lparr> rotation = stp_r sp, translation = zeros3,
                             from_frame = ''obj'', to_frame = ''stp'' \<rparr>;
               stp_to_camera_poses = object_to_camera_poses'
           in premultiply_loop T_obj_stp stp_to_camera_poses h []))"

definition wrap_images ::
  "VirtualCamera \<Rightarrow> RenderMode \<Rightarrow> binary_im list \<Rightarrow> depth_im list \<Rightarrow> wrapped_image list option" where
  "wrap_images self render_mode binary_ims depth_ims =
     (if render_mode = SEGMASK
      then Some (map (\<lambda>b. BinaryImage (channel0 b) (frame (camera_intr self))) binary_ims)
      else if render_mode = DEPTH
      then Some (map (\<lambda>d. DepthImage d (frame (camera_intr self))) depth_ims)
      else if render_mode = SCALED_DEPTH
      then Some (map (\<lambda>d. ToColor (DepthImage d ''camera'')) depth_ims)
      else None)"

text \<open>
  \<^verbatim>\<open>wrapped_images\<close> returns the store it leaves behind, the log records and its value, which
  is \<open>None\<close> for Python's \<^verbatim>\<open>None\<close>. The argument \<^verbatim>\<open>debug\<close> is not passed on: \<^verbatim>\<open>images\<close> runs
  with its default \<^verbatim>\<open>False\<close>. With a stable pose, \<^verbatim>\<open>object_to_camera_poses\<close> is reset before
  the pairing to a copy of \<^verbatim>\<open>stp_to_camera_poses\<close>, which holds the caller's references.
\<close>

definition wrapped_images ::
  "renderer \<Rightarrow> VirtualCamera \<Rightarrow> Mesh3D \<Rightarrow> store \<Rightarrow> ref list \<Rightarrow> RenderMode
     \<Rightarrow> StablePose option \<Rightarrow> bool
     \<Rightarrow> store \<times> log_record list \<times> ObjectRender list option" where
  "wrapped_images render_mesh self mesh h object_to_camera_poses' render_mode stable_pose debug =
     (let (h', projected) = premultiply h object_to_camera_poses' stable_pose;
          (log, binary_ims, depth_ims) = images render_mesh self mesh projected False
      in case wrap_images self render_mode binary_ims depth_ims of
           None \<Rightarrow> (h', log @ [WarningNotSupported render_mode], None)
         | Some images' \<Rightarrow>
             (let paired = (case stable_pose of
                              None \<Rightarrow> projected
                            | Some sp \<Rightarrow> map h' object_to_camera_poses');
                  rendered_images =
                    map (\<lambda>(im, T_obj_camera).
                           \<lparr> rendered_image = im, T_camera_obj = inverse_tf T_obj_camera \<rparr>)
                        (zip images' paired)
              in (h', log, Some rendered_images)))"

subsection \<open>Concrete inputs\<close>

text \<open>
  A rasterizer that returns one 1x1 image pair for each projection matrix, a camera with the
  identity as projection matrix, an empty mesh, a store whose objects are all the identity
  transform from \<open>obj\<close> to \<open>camera\<close>, and a stable pose that is a quarter turn about
  the z axis.
\<close>

definition example_renderer :: renderer where
  "example_renderer projections hgt wdt vertex_arr tri_arr debug =
     (map (\<lambda>P. [[(0, 0, 0)]]) projections, map (\<lambda>P. [[0]]) projections)"

text \<open>
  A rasterizer that shows what it was given: the depth image of a projection matrix is the
  3x4 matrix itself.
\<close>

definition echo_renderer :: renderer where
  "echo_renderer projections hgt wdt vertex_arr tri_arr debug =
     (map (\<lambda>P. [[(0, 0, 0)]]) projections,
      map (\<lambda>P. case P of (((a, b, c), (d, e, f), (g, h, i)), (u, v, w)) \<Rightarrow>
                   [[a, b, c, u], [d, e, f, v], [g, h, i, w]]) projections)"

definition example_camera :: VirtualCamera where
  "example_camera =
     \<lparr> camera_intr = \<lparr> proj_matrix = eye3, height = 1, width = 1, frame = ''camera'' \<rparr> \<rparr>"

definition example_mesh :: Mesh3D where
  "example_mesh = \<lparr> vertices = [], triangles = [] \<rparr>"

definition example_store :: store where
  "example_store a =
     \<lparr> rotation = eye3, translation = zeros3, from_frame = ''obj'', to_frame = ''camera'' \<rparr>"

definition example_stable_pose :: StablePose where
  "example_stable_pose =
     \<lparr> stp_p = 1, stp_r = ((0, - 1, 0), (1, 0, 0), (0, 0, 1)), stp_x0 = zeros3,
       stp_id = IdInt (- 1) \<rparr>"

text \<open>A discretizer with a single radius and elevation and an empty azimuth interval.\<close>

definition example_empty_az :: ViewsphereDiscretizer where
  "example_empty_az =
     \<lparr> min_radius = 1, max_radius = 1, num_radii = 1, min_az = 0, max_az = 0, num_az = 1,
       min_elev = 1, max_elev = 1, num_elev = 1, min_roll = 0, max_roll = 1, num_roll = 1 \<rparr>"

text \<open>
  The discretizer of the spec's end-to-end example, with two elevations in place of the
  poles: one radius, two elevations, four azimuths, one roll.
\<close>

definition example_viewsphere :: ViewsphereDiscretizer where
  "example_viewsphere =
     \<lparr> min_radius = 1, max_radius = 1, num_radii = 1, min_az = 0, max_az = 4, num_az = 4,
       min_elev = 1, max_elev = 2, num_elev = 2, min_roll = 0, max_roll = 6, num_roll = 1 \<rparr>"

text \<open>A discretizer whose single elevation is the pole \<open>elev = 0\<close>.\<close>

definition example_pole :: ViewsphereDiscretizer where
  "example_pole =
     \<lparr> min_radius = 1, max_radius = 1, num_radii = 1, min_az = 0, max_az = 4, num_az = 4,
       min_elev = 0, max_elev = 0, num_elev = 1, min_roll = 0, max_roll = 6, num_roll = 1 \<rparr>"

text \<open>
  A determinant routine for diagonal matrices on doubles, as far as the example below needs
  it: the product of the diagonal, rounded to the 53 significant bits of a double when its
  magnitude lies between \<open>1/2\<close> and \<open>1\<close>. The matrix has the diagonal \<open>73/64\<close>,
  \<open>-0.8679452054794521\<close> (the double \<open>-3908877703975269 / 2^52\<close>) and \<open>1\<close>.
\<close>

definition example_float_det :: "mat3 \<Rightarrow> real" where
  "example_float_det m =
     (case m of ((a, b, c), (d, e, f), (g, h, i)) \<Rightarrow>
        real_of_int (round (a * e * i * 2 ^ 53)) / 2 ^ 53)"

definition example_boundary_r :: mat3 where
  "example_boundary_r =
     ((73 / 64, 0, 0), (0, - (3908877703975269 / 2 ^ 52), 0), (0, 0, 1))"

section \<open>Properties\<close>

subsection \<open>The constructor of the discretizer\<close>

text \<open>
  Claim C6. The constructor of \<^verbatim>\<open>ViewsphereDiscretizer\<close> fails if and only if
  \<open>num_radii < 1\<close> or \<open>num_az < 1\<close> or \<open>num_elev < 1\<close>, and then with the one \<^verbatim>\<open>ValueError\<close>
  of the source (the spec's \<open>InvalidDiscretization\<close>). For all other arguments, whatever
  \<open>num_roll\<close> is, it succeeds and stores the twelve values unchanged.
\<close>

theorem init_fails_iff_count_below_one:
  "(isl (ViewsphereDiscretizer_init minr maxr nr mine maxe ne mina maxa na minro maxro nro)
      \<longleftrightarrow> (nr < 1 \<or> na < 1 \<or> ne < 1)) \<and>
   (\<forall>e. ViewsphereDiscretizer_init minr maxr nr mine maxe ne mina maxa na minro maxro nro = Inl e
      \<longrightarrow> e = ValueError ''Discretization must be at least one in each dimension'') \<and>
   (\<not> (nr < 1 \<or> na < 1 \<or> ne < 1) \<longrightarrow>
      (\<exists>self. ViewsphereDiscretizer_init minr maxr nr mine maxe ne mina maxa na minro maxro nro
                = Inr self \<and>
         min_radius self = minr \<and> max_radius self = maxr \<and> num_radii self = nr \<and>
         min_elev self = mine \<and> max_elev self = maxe \<and> num_elev self = ne \<and>
         min_az self = mina \<and> max_az self = maxa \<and> num_az self = na \<and>
         min_roll self = minro \<and> max_roll self = maxro \<and> num_roll self = nro))"
  by (simp add: ViewsphereDiscretizer_init_def)

theorem init_fails_iff_count_below_one_witness:
  "isl (ViewsphereDiscretizer_init 1 2 0 0 1 2 0 6 4 0 6 1) \<and>
   ViewsphereDiscretizer_init 1 2 3 0 1 2 0 6 4 0 6 (- 5) =
     Inr \<lparr> min_radius = 1, max_radius = 2, num_radii = 3, min_az = 0, max_az = 6, num_az = 4,
           min_elev = 0, max_elev = 1, num_elev = 2,
           min_roll = 0, max_roll = 6, num_roll = - 5 \<rparr>"
  using init_fails_iff_count_below_one [of 1 2 0 0 1 2 0 6 4 0 6 1]
    init_fails_iff_count_below_one [of 1 2 3 0 1 2 0 6 4 0 6 "- 5"]
  by auto

subsection \<open>The row flip of a stable pose\<close>

lemma det3_negate_row1: "det3 (negate_row1 m) = - det3 m"
  by (cases m rule: det3.cases) (simp add: algebra_simps)

text \<open>
  Claim C4. A stable pose built from \<open>p\<close>, \<open>r\<close>, \<open>x0\<close> and an identifier, where
  \<open>det\<close> is the determinant that the constructor computes: if \<open>|det r + 1| < 0.01\<close> its
  rotation is \<open>r\<close> with the row of index 1 negated, and the determinant of that rotation is
  within 0.01 of \<open>+1\<close>, the routine changing sign with the row as the exact determinant
  does; otherwise its rotation is \<open>r\<close>. The fields \<open>p\<close>, \<open>x0\<close> and \<open>id\<close> are stored
  unchanged in both cases.
\<close>

theorem stable_pose_init_flips_row1:
  "(\<bar>linalg_det ((a, b, c), (d, e, f), (g, h, i)) + 1\<bar> < 0.01 \<longrightarrow>
      stp_r (StablePose_init linalg_det pr ((a, b, c), (d, e, f), (g, h, i)) x i') =
        ((a, b, c), (- d, - e, - f), (g, h, i)) \<and>
      det3 (stp_r (StablePose_init linalg_det pr ((a, b, c), (d, e, f), (g, h, i)) x i')) =
        - (a * (e * i - f * h) - b * (d * i - f * g) + c * (d * h - e * g)) \<and>
      (linalg_det ((a, b, c), (- d, - e, - f), (g, h, i)) =
         - linalg_det ((a, b, c), (d, e, f), (g, h, i)) \<longrightarrow>
       \<bar>linalg_det
          (stp_r (StablePose_init linalg_det pr ((a, b, c), (d, e, f), (g, h, i)) x i')) - 1\<bar>
         < 0.01)) \<and>
   (\<not> \<bar>linalg_det ((a, b, c), (d, e, f), (g, h, i)) + 1\<bar> < 0.01 \<longrightarrow>
      stp_r (StablePose_init linalg_det pr ((a, b, c), (d, e, f), (g, h, i)) x i') =
        ((a, b, c), (d, e, f), (g, h, i))) \<and>
   stp_p (StablePose_init linalg_det pr ((a, b, c), (d, e, f), (g, h, i)) x i') = pr \<and>
   stp_x0 (StablePose_init linalg_det pr ((a, b, c), (d, e, f), (g, h, i)) x i') = x \<and>
   stp_id (StablePose_init linalg_det pr ((a, b, c), (d, e, f), (g, h, i)) x i') = i'"
proof -
  let ?m = "((a, b, c), (d, e, f), (g, h, i))"
  have flip: "negate_row1 ?m = ((a, b, c), (- d, - e, - f), (g, h, i))"
    by simp
  have dt: "det3 ((a, b, c), (- d, - e, - f), (g, h, i)) =
              - (a * (e * i - f * h) - b * (d * i - f * g) + c * (d * h - e * g))"
    by (simp add: algebra_simps)
  have sym: "\<bar>- linalg_det ?m - 1\<bar> = \<bar>linalg_det ?m + 1\<bar>"
    by simp
  show ?thesis
    unfolding StablePose_init_def Let_def
    by (simp add: flip dt sym del: negate_row1.simps det3.simps)
qed

theorem stable_pose_init_flips_row1_witness:
  "stp_r (StablePose_init det3 (1 / 2) ((1, 0, 0), (0, - 1, 0), (0, 0, 1)) (0, 0, 0)
            (IdInt (- 1)))
     = ((1, 0, 0), (0, 1, 0), (0, 0, 1)) \<and>
   \<bar>det3 (stp_r (StablePose_init det3 (1 / 2) ((1, 0, 0), (0, - 1, 0), (0, 0, 1)) (0, 0, 0)
                  (IdInt (- 1)))) - 1\<bar> < 0.01 \<and>
   stp_r (StablePose_init det3 (1 / 2) ((1, 0, 0), (0, 1, 0), (0, 0, 1)) (0, 0, 0)
            (IdInt (- 1)))
     = ((1, 0, 0), (0, 1, 0), (0, 0, 1))"
  using stable_pose_init_flips_row1
      [of det3 1 0 0 0 "- 1" 0 0 0 1 "1 / 2" "(0, 0, 0)" "IdInt (- 1)"]
    stable_pose_init_flips_row1
      [of det3 1 0 0 0 1 0 0 0 1 "1 / 2" "(0, 0, 0)" "IdInt (- 1)"]
  by simp

text \<open>
  At the boundary of the guard the computed and the exact determinant part: for the matrix
  below the exact determinant is within 0.01 of \<open>-1\<close>, the product computed on doubles is
  not, and the constructor, which tests the computed value, keeps the matrix.
\<close>

lemma example_float_det_boundary:
  "example_float_det example_boundary_r = - (4458563631096791 / 2 ^ 52)"
  by (simp add: example_float_det_def example_boundary_r_def round_def)

lemma stable_pose_init_float_boundary:
  "\<bar>det3 example_boundary_r + 1\<bar> < 0.01"
  "\<not> \<bar>example_float_det example_boundary_r + 1\<bar> < 0.01"
  "stp_r (StablePose_init example_float_det pr example_boundary_r x i') = example_boundary_r"
proof -
  show "\<bar>det3 example_boundary_r + 1\<bar> < 0.01"
    by (simp add: example_boundary_r_def)
  show n: "\<not> \<bar>example_float_det example_boundary_r + 1\<bar> < 0.01"
    unfolding example_float_det_boundary by simp
  show "stp_r (StablePose_init example_float_det pr example_boundary_r x i') = example_boundary_r"
    using n by (simp add: StablePose_init_def Let_def)
qed

subsection \<open>The pole of \<open>cart2sph\<close>\<close>

lemma cart2sph_az_None_iff: "cart2sph_az x y = None \<longleftrightarrow> x = 0 \<and> y = 0"
proof (cases "x = 0")
  case True
  then show ?thesis
    by (cases "y > 0"; cases "y < 0"; simp add: cart2sph_az_def)
next
  case False
  then show ?thesis
    by (cases "x > 0"; cases "y > 0"; cases "y < 0"; simp add: cart2sph_az_def)
qed

text \<open>The chain takes the first branch whose guard holds.\<close>

lemma cart2sph_az_first_branch:
  "cart2sph_az x y = map_option snd (find fst (cart2sph_branches x y))"
  by (simp add: cart2sph_az_def cart2sph_branches_def)

lemma cart2sph_guards_origin: "\<forall>g \<in> set (cart2sph_guards 0 0). \<not> g"
  by (simp add: cart2sph_guards_def cart2sph_branches_def)

lemma cart2sph_guards_one:
  assumes "x \<noteq> 0 \<or> y \<noteq> 0"
  shows "length (filter id (cart2sph_guards x y)) = 1"
proof -
  consider "x > 0" "y > 0" | "x > 0" "y < 0" | "x < 0" "y > 0" | "x < 0" "y < 0"
    | "x = 0" "y > 0" | "x = 0" "y < 0" | "y = 0" "x > 0" | "y = 0" "x < 0"
    using assms by (metis linorder_neqE_linordered_idom)
  then show ?thesis
    by cases (simp_all add: cart2sph_guards_def cart2sph_branches_def)
qed

text \<open>
  In exact arithmetic: with \<open>x = 0\<close> and \<open>y = 0\<close> no guard holds and the call fails with
  the unbound azimuth; otherwise exactly one guard holds and the call returns.
\<close>

lemma cart2sph_exact_pole:
  "(x = 0 \<and> y = 0 \<longrightarrow>
      cart2sph x y z = Inl (UnboundLocalError ''az'') \<and>
      (\<forall>g \<in> set (cart2sph_guards x y). \<not> g)) \<and>
   (x \<noteq> 0 \<or> y \<noteq> 0 \<longrightarrow>
      (\<exists>rad az elev. cart2sph x y z = Inr (rad, az, elev)) \<and>
      length (filter id (cart2sph_guards x y)) = 1)"
proof (intro conjI impI)
  assume "x = 0 \<and> y = 0"
  then show "cart2sph x y z = Inl (UnboundLocalError ''az'')"
    by (simp add: cart2sph_def cart2sph_az_def)
next
  assume "x = 0 \<and> y = 0"
  then show "\<forall>g \<in> set (cart2sph_guards x y). \<not> g"
    using cart2sph_guards_origin by simp
next
  assume "x \<noteq> 0 \<or> y \<noteq> 0"
  then have "cart2sph_az x y \<noteq> None"
    by (simp add: cart2sph_az_None_iff)
  then obtain a where "cart2sph_az x y = Some a" by auto
  then show "\<exists>rad az elev. cart2sph x y z = Inr (rad, az, elev)"
    by (simp add: cart2sph_def Let_def)
next
  assume "x \<noteq> 0 \<or> y \<noteq> 0"
  then show "length (filter id (cart2sph_guards x y)) = 1"
    by (rule cart2sph_guards_one)
qed

subsection \<open>\<open>cart2sph\<close> on Python floats\<close>

text \<open>The azimuth stays unbound exactly where no guard holds.\<close>

lemma map_sum_Some_neq_None: "map_sum id (\<lambda>q. Some (f q)) s \<noteq> Inr None"
  by (cases s) simp_all

lemma cart2sph_az_py_None_iff:
  "cart2sph_az_py x y = Inr None \<longleftrightarrow> (\<forall>g \<in> set (cart2sph_py_guards x y). \<not> g)"
  unfolding cart2sph_az_py_def cart2sph_py_guards_def
  by (simp add: map_sum_Some_neq_None)






text \<open>
  Where no intermediate value leaves the range of a double, the model on Python floats
  returns what the model in exact arithmetic returns.
\<close>

lemma in_range_Finite:
  assumes "\<bar>v\<bar> < overflow_bound"
  shows "in_range v = Finite v"
  using assms by (auto simp: in_range_def)

lemma sixteen_lt_overflow_bound: "16 < overflow_bound"
proof -
  have "(2::real) ^ 970 * 2 \<le> 2 ^ 970 * 2 ^ 54" by (intro mult_left_mono) simp_all
  then have "(2::real) ^ 970 + 2 ^ 970 \<le> 2 ^ 1024"
    by (simp add: power_add [symmetric])
  moreover have "(2::real) ^ 4 < 2 ^ 970" by (rule power_strict_increasing) simp_all
  ultimately show ?thesis by (simp add: overflow_bound_def)
qed

lemma arctan_affine_in_range:
  "\<bar>2 * pi - arctan t\<bar> < overflow_bound" "\<bar>pi - arctan t\<bar> < overflow_bound"
  "\<bar>pi + arctan t\<bar> < overflow_bound" "\<bar>2 * pi + arctan t\<bar> < overflow_bound"
proof -
  have b: "- (pi / 2) < arctan t" "arctan t < pi / 2"
    by (rule arctan_lbound arctan_ubound)+
  have p: "0 < pi" "pi < 4" by (simp_all add: pi_less_4)
  show "\<bar>2 * pi - arctan t\<bar> < overflow_bound" "\<bar>pi - arctan t\<bar> < overflow_bound"
    "\<bar>pi + arctan t\<bar> < overflow_bound" "\<bar>2 * pi + arctan t\<bar> < overflow_bound"
    using b p sixteen_lt_overflow_bound by linarith+
qed

lemma cart2sph_az_py_exact:
  assumes "a \<noteq> 0 \<longrightarrow> \<bar>b / a\<bar> < overflow_bound"
  shows "cart2sph_az_py (Finite a) (Finite b) = Inr (map_option Finite (cart2sph_az a b))"
proof (cases "a = 0")
  case True
  then show ?thesis
    by (cases "b > 0"; cases "b < 0"; simp add: cart2sph_az_py_def cart2sph_az_def)
next
  case False
  with assms have q: "in_range (b / a) = Finite (b / a)"
    by (simp add: in_range_Finite)
  from False assms have "\<bar>- b / a\<bar> < overflow_bound" by simp
  then have mq: "in_range (- b / a) = Finite (- b / a)"
    by (rule in_range_Finite)
  from mq have mq': "in_range (- (b / a)) = Finite (- (b / a))" by simp
  show ?thesis
    using False
    by (cases "a > 0"; cases "b > 0"; cases "b < 0";
        simp add: cart2sph_az_py_def cart2sph_az_def py_div_def py_sub_def q mq mq'
          in_range_Finite arctan_affine_in_range arctan_minus)
qed

lemma cart2sph_py_exact:
  assumes s: "a\<^sup>2 + b\<^sup>2 + c\<^sup>2 < overflow_bound"
    and q: "a \<noteq> 0 \<longrightarrow> \<bar>b / a\<bar> < overflow_bound"
  shows "cart2sph_py (Finite a) (Finite b) (Finite c) =
           map_sum id (\<lambda>(rad, az, elev). (Finite rad, Finite az, Finite elev)) (cart2sph a b c)"
proof -
  have sq: "\<not> overflow_bound \<le> a\<^sup>2" "\<not> overflow_bound \<le> b\<^sup>2" "\<not> overflow_bound \<le> c\<^sup>2"
    using s by (smt (verit) zero_le_power2)+
  have ab: "in_range (a\<^sup>2 + b\<^sup>2) = Finite (a\<^sup>2 + b\<^sup>2)"
    using s by (intro in_range_Finite) (smt (verit) zero_le_power2)
  have abc: "in_range (a\<^sup>2 + b\<^sup>2 + c\<^sup>2) = Finite (a\<^sup>2 + b\<^sup>2 + c\<^sup>2)"
    using s by (intro in_range_Finite) (smt (verit) zero_le_power2)
  have nn: "\<not> a\<^sup>2 + b\<^sup>2 + c\<^sup>2 < 0"
    by (smt (verit) zero_le_power2)
  let ?rad = "sqrt (a\<^sup>2 + b\<^sup>2 + c\<^sup>2)"
  have az: "cart2sph_az_py (Finite a) (Finite b) = Inr (map_option Finite (cart2sph_az a b))"
    using q by (rule cart2sph_az_py_exact)
  show ?thesis
  proof (cases "cart2sph_az a b")
    case None
    then show ?thesis
      by (simp add: cart2sph_py_def cart2sph_def Let_def sq ab abc nn az)
  next
    case (Some v)
    then have "\<not> (a = 0 \<and> b = 0)"
      using cart2sph_az_None_iff [of a b] by simp
    then have pos: "0 < a\<^sup>2 + b\<^sup>2"
      by (simp add: sum_power2_gt_zero_iff)
    then have rad: "0 < ?rad"
      by (smt (verit) real_sqrt_gt_zero zero_le_power2)
    have "sqrt (c\<^sup>2) \<le> ?rad"
      using pos by (intro real_sqrt_le_mono) simp
    then have "\<bar>c\<bar> \<le> ?rad"
      by simp
    then have le1: "\<bar>c / ?rad\<bar> \<le> 1"
      using rad by (simp add: field_simps)
    then have el: "in_range (c / ?rad) = Finite (c / ?rad)"
      using sixteen_lt_overflow_bound by (intro in_range_Finite) linarith
    have dom: "- 1 \<le> c / ?rad \<and> c / ?rad \<le> 1"
      using le1 unfolding abs_le_iff by linarith
    have nz: "?rad \<noteq> 0" using rad by simp
    show ?thesis
      using Some nz dom
      by (simp add: cart2sph_py_def cart2sph_def Let_def sq ab abc nn az el
          del: real_sqrt_eq_zero_cancel_iff)
  qed
qed




subsection \<open>The unchecked roll count\<close>

text \<open>
  Claim C9. The constructor does not check \<open>num_roll\<close>: with the three checked counts at
  least one it succeeds for every \<open>num_roll\<close>, also below one, and with \<open>num_roll = 0\<close> the
  call of \<^verbatim>\<open>object_to_camera_poses\<close> on the constructed object divides by zero at the roll
  step and raises \<^verbatim>\<open>ZeroDivisionError\<close>, not the constructor's error.
\<close>

theorem num_roll_zero_divides_by_zero:
  assumes "1 \<le> nr" and "1 \<le> na" and "1 \<le> ne"
  shows "\<exists>self. ViewsphereDiscretizer_init minr maxr nr mine maxe ne mina maxa na minro maxro nro
                  = Inr self \<and>
           num_roll self = nro \<and>
           (nro = 0 \<longrightarrow> object_to_camera_poses self = Some (Inl ZeroDivisionError))"
  using assms by (simp add: ViewsphereDiscretizer_init_def object_to_camera_poses_def Let_def)

theorem num_roll_zero_divides_by_zero_witness:
  "\<exists>self. ViewsphereDiscretizer_init 1 2 3 0 1 2 0 (2 * pi) 4 0 (2 * pi) 0 = Inr self \<and>
      num_roll self = 0 \<and>
      object_to_camera_poses self = Some (Inl ZeroDivisionError)"
  using num_roll_zero_divides_by_zero [of 3 4 2 1 2 0 1 0 "2 * pi" 0 "2 * pi" 0] by simp

subsection \<open>The virtual camera\<close>

lemma premultiply_loop_eq:
  "premultiply_loop T refs h acc =
     ((\<lambda>a. if a \<in> set refs then (h a)\<lparr>from_frame := ''stp''\<rparr> else h a),
      acc @ map (\<lambda>a. dot_tf ((h a)\<lparr>from_frame := ''stp''\<rparr>) T) refs)"
proof (induction refs arbitrary: h acc)
  case Nil
  show ?case by simp
next
  case (Cons a refs)
  let ?h' = "h(a := (h a)\<lparr>from_frame := ''stp''\<rparr>)"
  have upd: "(?h' b)\<lparr>from_frame := ''stp''\<rparr> = (h b)\<lparr>from_frame := ''stp''\<rparr>" for b
    by simp
  have "premultiply_loop T (a # refs) h acc =
          premultiply_loop T refs ?h' (acc @ [dot_tf (?h' a) T])"
    by (simp add: Let_def)
  also have "\<dots> =
      ((\<lambda>b. if b \<in> set refs then (?h' b)\<lparr>from_frame := ''stp''\<rparr> else ?h' b),
       (acc @ [dot_tf (?h' a) T]) @ map (\<lambda>b. dot_tf ((?h' b)\<lparr>from_frame := ''stp''\<rparr>) T) refs)"
    by (rule Cons.IH)
  also have "\<dots> =
      ((\<lambda>b. if b \<in> set (a # refs) then (h b)\<lparr>from_frame := ''stp''\<rparr> else h b),
       acc @ map (\<lambda>b. dot_tf ((h b)\<lparr>from_frame := ''stp''\<rparr>) T) (a # refs))"
    unfolding upd by (auto simp: fun_eq_iff)
  finally show ?case .
qed

lemma premultiply_None: "premultiply h refs None = (h, map h refs)"
  by (simp add: premultiply_def)

lemma premultiply_Some:
  "premultiply h refs (Some sp) =
     ((\<lambda>a. if a \<in> set refs then (h a)\<lparr>from_frame := ''stp''\<rparr> else h a),
      map (\<lambda>a. dot_tf ((h a)\<lparr>from_frame := ''stp''\<rparr>)
                 \<lparr> rotation = stp_r sp, translation = zeros3,
                   from_frame = ''obj'', to_frame = ''stp'' \<rparr>) refs)"
  by (simp add: premultiply_def Let_def premultiply_loop_eq)

lemma wrapped_images_store:
  "fst (wrapped_images R self mesh h refs mode sp dbg) = fst (premultiply h refs sp)"
  by (simp add: wrapped_images_def Let_def split: prod.splits option.splits)

lemma wrap_images_None_iff:
  "wrap_images self mode bs ds = None \<longleftrightarrow> mode \<notin> {SEGMASK, DEPTH, SCALED_DEPTH}"
  by (simp add: wrap_images_def)

lemma projection_fun:
  "projection intr =
     (\<lambda>T. (mat_dot (proj_matrix intr) (rotation T), mat_vec (proj_matrix intr) (translation T)))"
  by (simp add: fun_eq_iff projection_def)

lemma echo_result:
  "snd (snd (wrapped_images echo_renderer example_camera example_mesh example_store [0]
               DEPTH (Some example_stable_pose) False)) =
     Some [\<lparr> rendered_image =
               DepthImage [[0, - 1, 0, 0], [1, 0, 0, 0], [0, 0, 1, 0]] ''camera'',
             T_camera_obj = \<lparr> rotation = ((1, 0, 0), (0, 1, 0), (0, 0, 1)),
                              translation = (0, 0, 0),
                              from_frame = ''camera'', to_frame = ''stp'' \<rparr> \<rparr>]"
  by (simp add: wrapped_images_def premultiply_Some images_def wrap_images_def projection_def
      echo_renderer_def example_camera_def example_store_def example_stable_pose_def
      inverse_tf_def dot_tf_def eye3_def zeros3_def)

lemma example_composed:
  "dot_tf ((example_store 0)\<lparr>from_frame := ''stp''\<rparr>)
     \<lparr> rotation = stp_r example_stable_pose, translation = zeros3,
       from_frame = ''obj'', to_frame = ''stp'' \<rparr> =
   \<lparr> rotation = ((0, - 1, 0), (1, 0, 0), (0, 0, 1)), translation = (0, 0, 0),
     from_frame = ''obj'', to_frame = ''camera'' \<rparr>"
  by (simp add: example_store_def example_stable_pose_def dot_tf_def eye3_def zeros3_def)

text \<open>
  Claim C10. With a stable pose, \<^verbatim>\<open>wrapped_images\<close> changes the caller's objects: after the
  call every transform that the passed list refers to has \<open>from_frame = stp\<close> and is
  otherwise as before, and no other object has changed. Without a stable pose the store is
  left as it was.
\<close>

theorem wrapped_images_sets_from_frame:
  "fst (wrapped_images R self mesh h refs mode (Some sp) dbg) =
     (\<lambda>a. if a \<in> set refs then (h a)\<lparr>from_frame := ''stp''\<rparr> else h a) \<and>
   fst (wrapped_images R self mesh h refs mode None dbg) = h"
  by (simp add: wrapped_images_store premultiply_None premultiply_Some)


theorem wrapped_images_sets_from_frame_witness:
  "fst (wrapped_images example_renderer example_camera example_mesh example_store [0] DEPTH
          (Some example_stable_pose) False) 0 =
     \<lparr> rotation = eye3, translation = zeros3, from_frame = ''stp'', to_frame = ''camera'' \<rparr> \<and>
   fst (wrapped_images example_renderer example_camera example_mesh example_store [0] DEPTH
          (Some example_stable_pose) False) 1 = example_store 1 \<and>
   fst (wrapped_images example_renderer example_camera example_mesh example_store [0] DEPTH
          None False) = example_store"
  using wrapped_images_sets_from_frame
      [of example_renderer example_camera example_mesh example_store "[0]" DEPTH
          example_stable_pose False]
  by (simp add: example_store_def)

text \<open>
  Claim C7. With a render mode other than \<open>SEGMASK\<close>, \<open>DEPTH\<close> and \<open>SCALED_DEPTH\<close>,
  \<^verbatim>\<open>wrapped_images\<close> logs the warning and returns \<^verbatim>\<open>None\<close>; the call has no path that raises.
\<close>

theorem wrapped_images_unsupported_mode:
  assumes "mode \<notin> {SEGMASK, DEPTH, SCALED_DEPTH}"
  shows "snd (wrapped_images R self mesh h refs mode sp dbg) =
           ([DebugRenderingTook, WarningNotSupported mode], None)"
proof -
  have "wrap_images self mode bs ds = None" for bs ds
    using assms by (simp add: wrap_images_None_iff)
  then show ?thesis
    by (simp add: wrapped_images_def images_def Let_def split: prod.splits)
qed


theorem wrapped_images_unsupported_mode_witness:
  "COLOR \<notin> {SEGMASK, DEPTH, SCALED_DEPTH} \<and>
   snd (wrapped_images example_renderer example_camera example_mesh example_store [0] COLOR
          None False) = ([DebugRenderingTook, WarningNotSupported COLOR], None)"
  using wrapped_images_unsupported_mode
      [of COLOR example_renderer example_camera example_mesh example_store "[0]" None False]
  by simp

text \<open>
  Claim C1, as stated: with a recognized render mode every result is paired with the inverse
  of the transform that built its projection matrix, also when a stable pose is supplied.
  The call below has a stable pose and a rasterizer that returns each projection matrix as
  the depth image. The image of the single result is the projection of the composed
  transform, a quarter turn, whose inverse is the opposite quarter turn; the pose of the
  result is the inverse of the caller's transform, the identity, now from \<open>stp\<close>.
\<close>

theorem wrapped_images_pose_not_inverse_of_projected:
  "snd (snd (wrapped_images echo_renderer example_camera example_mesh example_store [0]
               DEPTH (Some example_stable_pose) False)) =
     Some [\<lparr> rendered_image =
               DepthImage [[0, - 1, 0, 0], [1, 0, 0, 0], [0, 0, 1, 0]] ''camera'',
             T_camera_obj = \<lparr> rotation = ((1, 0, 0), (0, 1, 0), (0, 0, 1)),
                              translation = (0, 0, 0),
                              from_frame = ''camera'', to_frame = ''stp'' \<rparr> \<rparr>] \<and>
   dot_tf ((example_store 0)\<lparr>from_frame := ''stp''\<rparr>)
     \<lparr> rotation = stp_r example_stable_pose, translation = zeros3,
       from_frame = ''obj'', to_frame = ''stp'' \<rparr> =
     \<lparr> rotation = ((0, - 1, 0), (1, 0, 0), (0, 0, 1)), translation = (0, 0, 0),
       from_frame = ''obj'', to_frame = ''camera'' \<rparr> \<and>
   inverse_tf \<lparr> rotation = ((0, - 1, 0), (1, 0, 0), (0, 0, 1)), translation = (0, 0, 0),
                from_frame = ''obj'', to_frame = ''camera'' \<rparr> =
     \<lparr> rotation = ((0, 1, 0), (- 1, 0, 0), (0, 0, 1)), translation = (0, 0, 0),
       from_frame = ''camera'', to_frame = ''obj'' \<rparr> \<and>
   map T_camera_obj
     (the (snd (snd (wrapped_images echo_renderer example_camera example_mesh example_store
                       [0] DEPTH (Some example_stable_pose) False))))
   \<noteq> [inverse_tf \<lparr> rotation = ((0, - 1, 0), (1, 0, 0), (0, 0, 1)), translation = (0, 0, 0),
                     from_frame = ''obj'', to_frame = ''camera'' \<rparr>]"
  by (simp add: echo_result example_composed) (simp add: inverse_tf_def)

text \<open>
  Claim C1, amended. With a recognized render mode the call returns the list that pairs
  the i-th wrapped image with the inverse of the i-th input transform as the call leaves it.
  The images are those that the rasterizer returns for the projection matrices of the
  transforms \<open>composed\<close>: without a stable pose these are the input transforms, so each pose
  is the inverse of the transform that built its projection matrix; with a stable pose they
  are the products of the input transforms, their \<open>from_frame\<close> set to \<open>stp\<close>, with the
  transform of the stable pose, while each pose is the inverse of the retained input
  transform with \<open>from_frame = stp\<close>, not of the product.
\<close>

theorem wrapped_images_pose_inverts_input:
  assumes "mode \<in> {SEGMASK, DEPTH, SCALED_DEPTH}"
  shows
    "(let composed =
            (case sp of
               None \<Rightarrow> map h refs
             | Some s \<Rightarrow>
                 map (\<lambda>a. dot_tf ((h a)\<lparr>from_frame := ''stp''\<rparr>)
                            \<lparr> rotation = stp_r s, translation = zeros3,
                              from_frame = ''obj'', to_frame = ''stp'' \<rparr>) refs);
          retained =
            (case sp of
               None \<Rightarrow> map h refs
             | Some s \<Rightarrow> map (\<lambda>a. (h a)\<lparr>from_frame := ''stp''\<rparr>) refs);
          rendered =
            R (map (\<lambda>T. (mat_dot (proj_matrix (camera_intr self)) (rotation T),
                          mat_vec (proj_matrix (camera_intr self)) (translation T))) composed)
              (height (camera_intr self)) (width (camera_intr self))
              (vertices mesh) (astype_uint32 (triangles mesh)) False;
          ims =
            (if mode = SEGMASK
             then map (\<lambda>b. BinaryImage (map (map fst) b) (frame (camera_intr self)))
                    (fst rendered)
             else if mode = DEPTH
             then map (\<lambda>d. DepthImage d (frame (camera_intr self))) (snd rendered)
             else map (\<lambda>d. ToColor (DepthImage d ''camera'')) (snd rendered))
      in snd (snd (wrapped_images R self mesh h refs mode sp dbg)) =
           Some (map (\<lambda>(im, T). \<lparr> rendered_image = im, T_camera_obj = inverse_tf T \<rparr>)
                   (zip ims retained)))"
proof -
  note rd = case_prod_beta
  show ?thesis
  proof (cases sp)
    case None
    then show ?thesis
      using assms
      by (cases "mode = SEGMASK"; cases "mode = DEPTH")
         (simp_all add: wrapped_images_def premultiply_None images_def wrap_images_def
           projection_fun channel0_def Let_def rd)
  next
    case (Some s)
    have upd: "(\<lambda>a. if a \<in> set refs then (h a)\<lparr>from_frame := ''stp''\<rparr> else h a) x =
                 (h x)\<lparr>from_frame := ''stp''\<rparr>" if "x \<in> set refs" for x
      using that by simp
    have eq: "map (\<lambda>a. if a \<in> set refs then (h a)\<lparr>from_frame := ''stp''\<rparr> else h a) refs =
            map (\<lambda>a. (h a)\<lparr>from_frame := ''stp''\<rparr>) refs"
      by (rule map_cong) simp_all
    show ?thesis
      using assms Some
      by (cases "mode = SEGMASK"; cases "mode = DEPTH")
         (simp_all add: wrapped_images_def premultiply_Some images_def wrap_images_def
           projection_fun channel0_def Let_def rd eq)
  qed
qed


theorem wrapped_images_pose_inverts_input_witness:
  "DEPTH \<in> {SEGMASK, DEPTH, SCALED_DEPTH} \<and>
   snd (snd (wrapped_images echo_renderer example_camera example_mesh example_store [0]
               DEPTH (Some example_stable_pose) False)) =
     Some [\<lparr> rendered_image =
               DepthImage [[0, - 1, 0, 0], [1, 0, 0, 0], [0, 0, 1, 0]] ''camera'',
             T_camera_obj = inverse_tf ((example_store 0)\<lparr>from_frame := ''stp''\<rparr>) \<rparr>] \<and>
   snd (snd (wrapped_images echo_renderer example_camera example_mesh example_store [0]
               DEPTH None False)) =
     Some [\<lparr> rendered_image =
               DepthImage [[1, 0, 0, 0], [0, 1, 0, 0], [0, 0, 1, 0]] ''camera'',
             T_camera_obj = inverse_tf (example_store 0) \<rparr>]"
proof -
  have m: "DEPTH \<in> {SEGMASK, DEPTH, SCALED_DEPTH}" by simp
  have ev: "echo_renderer [(((a, b, c), (d, e, f), (g, h, i)), (u, v, w))] hg wd vs ts dbg =
      ([[[(0, 0, 0)]]], [[[a, b, c, u], [d, e, f, v], [g, h, i, w]]])"
    for a b c d e f g h i u v w hg wd vs ts dbg
    by (simp add: echo_renderer_def)
  from wrapped_images_pose_inverts_input
      [OF m, where R = echo_renderer and self = example_camera and mesh = example_mesh
          and h = example_store and refs = "[0]" and sp = "Some example_stable_pose"
          and dbg = False]
  have a: "snd (snd (wrapped_images echo_renderer example_camera example_mesh example_store [0]
               DEPTH (Some example_stable_pose) False)) =
     Some [\<lparr> rendered_image =
               DepthImage [[0, - 1, 0, 0], [1, 0, 0, 0], [0, 0, 1, 0]] ''camera'',
             T_camera_obj = inverse_tf ((example_store 0)\<lparr>from_frame := ''stp''\<rparr>) \<rparr>]"
    by (simp add: Let_def example_composed)
       (simp add: example_camera_def eye3_def ev)
  from wrapped_images_pose_inverts_input
      [OF m, where R = echo_renderer and self = example_camera and mesh = example_mesh
          and h = example_store and refs = "[0]" and sp = None and dbg = False]
  have b: "snd (snd (wrapped_images echo_renderer example_camera example_mesh example_store [0]
               DEPTH None False)) =
     Some [\<lparr> rendered_image =
               DepthImage [[1, 0, 0, 0], [0, 1, 0, 0], [0, 0, 1, 0]] ''camera'',
             T_camera_obj = inverse_tf (example_store 0) \<rparr>]"
    by (simp add: Let_def)
       (simp add: example_camera_def example_store_def eye3_def zeros3_def ev)
  from m a b show ?thesis by blast
qed

subsection \<open>Spherical and Cartesian coordinates\<close>

lemma sph2cart_sum_squares:
  fixes rad az elev :: real
  shows "(rad * cos az * sin elev)\<^sup>2 + (rad * sin az * sin elev)\<^sup>2 + (rad * cos elev)\<^sup>2 = rad\<^sup>2"
proof -
  have "(rad * cos az * sin elev)\<^sup>2 + (rad * sin az * sin elev)\<^sup>2 + (rad * cos elev)\<^sup>2
      = rad\<^sup>2 * ((sin elev)\<^sup>2 * ((cos az)\<^sup>2 + (sin az)\<^sup>2) + (cos elev)\<^sup>2)"
    by algebra
  also have "\<dots> = rad\<^sup>2" by simp
  finally show ?thesis .
qed

lemma sign_scaled:
  fixes k c :: real
  assumes "0 < k"
  shows "0 < k * c \<longleftrightarrow> 0 < c" and "k * c < 0 \<longleftrightarrow> c < 0"
  using assms by (simp_all add: zero_less_mult_iff mult_less_0_iff)

lemma cos_neg_second_third:
  assumes "pi / 2 < az" "az < 3 * pi / 2"
  shows "cos az < 0"
proof -
  have "0 < cos (az - pi)"
    using assms by (intro cos_gt_zero_pi) simp_all
  then show ?thesis by simp
qed

lemma cos_pos_fourth:
  assumes "3 * pi / 2 < az" "az < 2 * pi"
  shows "0 < cos az"
proof -
  have "0 < cos (az - 2 * pi)"
    using assms by (intro cos_gt_zero_pi) simp_all
  moreover have "cos (az - 2 * pi) = cos az"
    using cos_periodic [of "az - 2 * pi"] by simp
  ultimately show ?thesis by simp
qed

lemma arctan_tan_shift_pi:
  assumes "pi / 2 < az" "az < 3 * pi / 2"
  shows "arctan (tan az) = az - pi"
proof -
  have "tan az = tan (az - pi)"
    using tan_periodic_pi [of "az - pi"] by simp
  moreover have "arctan (tan (az - pi)) = az - pi"
    using assms by (intro arctan_tan) simp_all
  ultimately show ?thesis by simp
qed

lemma arctan_tan_shift_2pi:
  assumes "3 * pi / 2 < az" "az < 2 * pi"
  shows "arctan (tan az) = az - 2 * pi"
proof -
  have "tan az = tan (az - 2 * pi)"
    using tan_periodic [of "az - 2 * pi"] by simp
  moreover have "arctan (tan (az - 2 * pi)) = az - 2 * pi"
    using assms by (intro arctan_tan) simp_all
  ultimately show ?thesis by simp
qed

lemma cart2sph_az_sph2cart:
  assumes rad: "0 < rad" and el: "0 < elev" "elev < pi"
    and az: "0 < az" "az < 2 * pi" "az \<notin> {pi / 2, pi, 3 * pi / 2}"
  shows "cart2sph_az (rad * cos az * sin elev) (rad * sin az * sin elev) = Some az"
proof -
  let ?x = "rad * cos az * sin elev" and ?y = "rad * sin az * sin elev"
  have s: "0 < sin elev" using el by (rule sin_gt_zero)
  have k: "0 < rad * sin elev" using rad s by simp
  have x: "?x = (rad * sin elev) * cos az" and y: "?y = (rad * sin elev) * sin az"
    by simp_all
  have sgn_x: "0 < ?x \<longleftrightarrow> 0 < cos az" "?x < 0 \<longleftrightarrow> cos az < 0"
    unfolding x by (rule sign_scaled [OF k])+
  have sgn_y: "0 < ?y \<longleftrightarrow> 0 < sin az" "?y < 0 \<longleftrightarrow> sin az < 0"
    unfolding y by (rule sign_scaled [OF k])+
  have "rad \<noteq> 0" "sin elev \<noteq> 0" using rad s by simp_all
  then have q: "?y / ?x = tan az"
    by (simp add: tan_def)
  have mq: "- ?y / ?x = - tan az"
    using q by simp
  consider (q1) "az < pi / 2" | (q2) "pi / 2 < az" "az < pi"
    | (q3) "pi < az" "az < 3 * pi / 2" | (q4) "3 * pi / 2 < az"
    using az by fastforce
  then show ?thesis
  proof cases
    case q1
    have "0 < cos az" using az q1 by (intro cos_gt_zero)
    moreover have "0 < sin az" using az q1 by (intro sin_gt_zero2)
    moreover have "arctan (tan az) = az" using az q1 by (intro arctan_tan) simp_all
    ultimately show ?thesis
      unfolding cart2sph_az_def sgn_x sgn_y q by simp
  next
    case q2
    have c: "cos az < 0" using q2 by (intro cos_neg_second_third) simp_all
    have sn: "0 < sin az" using az q2 by (intro sin_gt_zero)
    have "arctan (tan az) = az - pi" using q2 by (intro arctan_tan_shift_pi) simp_all
    then have "pi - arctan (- tan az) = az" by (simp add: arctan_minus)
    then show ?thesis
      unfolding cart2sph_az_def sgn_x sgn_y mq using c sn by simp
  next
    case q3
    have c: "cos az < 0" using q3 by (intro cos_neg_second_third) simp_all
    have sn: "sin az < 0" using q3 by (intro sin_lt_zero) simp_all
    have "arctan (tan az) = az - pi" using q3 by (intro arctan_tan_shift_pi) simp_all
    then have "pi + arctan (tan az) = az" by simp
    then show ?thesis
      unfolding cart2sph_az_def sgn_x sgn_y q using c sn by simp
  next
    case q4
    have c: "0 < cos az" using q4 az by (intro cos_pos_fourth)
    have sn: "sin az < 0" using q4 az by (intro sin_lt_zero) simp_all
    have "arctan (tan az) = az - 2 * pi" using q4 az by (intro arctan_tan_shift_2pi)
    then have "2 * pi - arctan (- tan az) = az" by (simp add: arctan_minus)
    then show ?thesis
      unfolding cart2sph_az_def sgn_x sgn_y mq using c sn by simp
  qed
qed

lemma cart2sph_az_on_axis:
  assumes "x = 0 \<or> y = 0"
  shows "cart2sph_az x y \<in> {None, Some (pi / 2), Some (3 * pi / 2), Some 0, Some pi}"
proof (cases "x = 0")
  case True
  then show ?thesis
    by (cases "y > 0"; cases "y < 0"; simp add: cart2sph_az_def)
next
  case False
  with assms have "y = 0" by simp
  with False show ?thesis
    by (cases "x > 0"; simp add: cart2sph_az_def)
qed

lemma quadrant_guard:
  assumes "x \<noteq> 0" and "y \<noteq> 0"
  shows "length (filter id (take 4 (cart2sph_guards x y))) = 1"
proof -
  consider "x > 0" "y > 0" | "x > 0" "y < 0" | "x < 0" "y > 0" | "x < 0" "y < 0"
    using assms by (metis linorder_neqE_linordered_idom)
  then show ?thesis
    by cases (simp_all add: cart2sph_guards_def cart2sph_branches_def)
qed

text \<open>
  Claim C5. For \<open>r > 0\<close>, an elevation in \<open>(0, \<pi>)\<close> and an azimuth in \<open>(0, 2\<pi>)\<close> other
  than \<open>\<pi>/2\<close>, \<open>\<pi>\<close> and \<open>3\<pi>/2\<close>, \<^verbatim>\<open>cart2sph\<close> applied to the result of \<^verbatim>\<open>sph2cart\<close> returns
  exactly the radius, azimuth and elevation it started from; the point is off the x and y
  axes, so the azimuth comes from one of the four quadrant branches.
\<close>

theorem cart2sph_sph2cart:
  assumes "0 < rad" and "0 < elev" and "elev < pi"
    and "0 < az" and "az < 2 * pi" and "az \<notin> {pi / 2, pi, 3 * pi / 2}"
  shows "(case sph2cart rad az elev of (x, y, z) \<Rightarrow>
            cart2sph x y z = Inr (rad, az, elev) \<and>
            length (filter id (take 4 (cart2sph_guards x y))) = 1)"
proof -
  let ?x = "rad * cos az * sin elev" and ?y = "rad * sin az * sin elev"
  have r: "sqrt (?x\<^sup>2 + ?y\<^sup>2 + (rad * cos elev)\<^sup>2) = rad"
    using assms(1) by (simp add: sph2cart_sum_squares)
  have "rad \<noteq> 0" using assms(1) by simp
  then have e: "arccos (rad * cos elev / rad) = elev"
    using assms(2,3) by (simp add: arccos_cos)
  have a: "cart2sph_az ?x ?y = Some az"
    by (rule cart2sph_az_sph2cart [OF assms])
  have "\<not> (?x = 0 \<or> ?y = 0)"
  proof
    assume "?x = 0 \<or> ?y = 0"
    from cart2sph_az_on_axis [OF this] show False
      unfolding a using assms(4,6) by simp
  qed
  then have g: "length (filter id (take 4 (cart2sph_guards ?x ?y))) = 1"
    by (intro quadrant_guard) simp_all
  show ?thesis
    unfolding sph2cart_def cart2sph_def Let_def prod.case r e a using g by simp
qed

theorem cart2sph_sph2cart_witness:
  "(case sph2cart 1 (pi / 4) (pi / 2) of (x, y, z) \<Rightarrow>
      cart2sph x y z = Inr (1, pi / 4, pi / 2) \<and>
      length (filter id (take 4 (cart2sph_guards x y))) = 1)"
  using cart2sph_sph2cart [of 1 "pi / 2" "pi / 4"] by simp

subsection \<open>The loops of \<open>object_to_camera_poses\<close>\<close>

text \<open>
  Each loop, started at \<open>x\<close> with step \<open>inc\<close>, runs \<open>n\<close> times when the samples
  \<open>x + k * inc\<close> pass its test for \<open>k < n\<close> and the sample with \<open>k = n\<close> fails it.
\<close>

lemma map_upt_shift:
  "map f [0..<Suc n] = f 0 # map (\<lambda>k. f (Suc k)) [0..<n]"
  by (simp only: map_upt_Suc)

lemma step_shift: "x + inc + real k * inc = x + real (Suc k) * inc"
  by (simp add: algebra_simps)

lemma step_last: "x + real (Suc k) * inc = (x + real k * inc) + inc"
  by (simp add: algebra_simps)

lemma roll_loop_unroll:
  assumes "\<not> roll + real n * roll_inc < max_roll self"
    and "\<forall>k<n. roll + real k * roll_inc < max_roll self"
  shows "roll_loop self roll_inc radius elev az roll poses =
           Some (poses @ map (\<lambda>k. camera_pose radius az elev (roll + real k * roll_inc)) [0..<n])"
  using assms
proof (induction n arbitrary: roll poses)
  case 0
  then show ?case
    by (subst roll_loop.simps) simp
next
  case (Suc n)
  from Suc.prems(2) have here: "roll < max_roll self" by force
  have stop: "\<not> roll + roll_inc + real n * roll_inc < max_roll self"
    using Suc.prems(1) by (simp add: algebra_simps)
  have go: "\<forall>k<n. roll + roll_inc + real k * roll_inc < max_roll self"
  proof (intro allI impI)
    fix k assume "k < n"
    then have "roll + real (Suc k) * roll_inc < max_roll self"
      using Suc.prems(2) by blast
    then show "roll + roll_inc + real k * roll_inc < max_roll self"
      by (simp add: algebra_simps)
  qed
  have "roll_loop self roll_inc radius elev az roll poses =
          roll_loop self roll_inc radius elev az (roll + roll_inc)
            (poses @ [camera_pose radius az elev roll])"
    using here by (subst roll_loop.simps) simp
  also have "\<dots> = Some ((poses @ [camera_pose radius az elev roll]) @
        map (\<lambda>k. camera_pose radius az elev (roll + roll_inc + real k * roll_inc)) [0..<n])"
    by (rule Suc.IH [OF stop go])
  also have "\<dots> = Some (poses @
        map (\<lambda>k. camera_pose radius az elev (roll + real k * roll_inc)) [0..<Suc n])"
    unfolding map_upt_shift step_shift by simp
  finally show ?case .
qed


lemma concat_upt_shift:
  "concat (map f [0..<Suc n]) = f 0 @ concat (map (\<lambda>k. f (Suc k)) [0..<n])"
  by (simp only: map_upt_shift concat.simps)

lemma az_loop_unroll:
  assumes inner: "\<And>a ps. roll_loop self roll_inc radius elev a (min_roll self) ps = Some (ps @ f a)"
    and "\<not> az + real n * az_inc < max_az self"
    and "\<forall>k<n. az + real k * az_inc < max_az self"
  shows "az_loop self az_inc roll_inc radius elev az poses =
           Some (poses @ concat (map (\<lambda>k. f (az + real k * az_inc)) [0..<n]))"
  using assms(2,3)
proof (induction n arbitrary: az poses)
  case 0
  then show ?case
    by (subst az_loop.simps) simp
next
  case (Suc n)
  from Suc.prems(2) have here: "az < max_az self" by force
  have stop: "\<not> az + az_inc + real n * az_inc < max_az self"
    using Suc.prems(1) by (simp add: algebra_simps)
  have go: "\<forall>k<n. az + az_inc + real k * az_inc < max_az self"
  proof (intro allI impI)
    fix k assume "k < n"
    then have "az + real (Suc k) * az_inc < max_az self"
      using Suc.prems(2) by blast
    then show "az + az_inc + real k * az_inc < max_az self"
      by (simp add: algebra_simps)
  qed
  have "az_loop self az_inc roll_inc radius elev az poses =
          az_loop self az_inc roll_inc radius elev (az + az_inc) (poses @ f az)"
    using here by (subst az_loop.simps) (simp add: inner)
  also have "\<dots> = Some ((poses @ f az) @
        concat (map (\<lambda>k. f (az + az_inc + real k * az_inc)) [0..<n]))"
    by (rule Suc.IH [OF stop go])
  also have "\<dots> = Some (poses @ concat (map (\<lambda>k. f (az + real k * az_inc)) [0..<Suc n]))"
    unfolding concat_upt_shift step_shift by simp
  finally show ?case .
qed

lemma elev_loop_unroll:
  assumes inner: "\<And>e ps. az_loop self az_inc roll_inc radius e (min_az self) ps = Some (ps @ f e)"
    and "\<not> elev + real n * elev_inc \<le> max_elev self"
    and "\<forall>k<n. elev + real k * elev_inc \<le> max_elev self"
  shows "elev_loop self elev_inc az_inc roll_inc radius elev poses =
           Some (poses @ concat (map (\<lambda>k. f (elev + real k * elev_inc)) [0..<n]))"
  using assms(2,3)
proof (induction n arbitrary: elev poses)
  case 0
  then show ?case
    by (subst elev_loop.simps) simp
next
  case (Suc n)
  from Suc.prems(2) have here: "elev \<le> max_elev self" by force
  have stop: "\<not> elev + elev_inc + real n * elev_inc \<le> max_elev self"
    using Suc.prems(1) by (simp add: algebra_simps)
  have go: "\<forall>k<n. elev + elev_inc + real k * elev_inc \<le> max_elev self"
  proof (intro allI impI)
    fix k assume "k < n"
    then have "elev + real (Suc k) * elev_inc \<le> max_elev self"
      using Suc.prems(2) by blast
    then show "elev + elev_inc + real k * elev_inc \<le> max_elev self"
      by (simp add: algebra_simps)
  qed
  have "elev_loop self elev_inc az_inc roll_inc radius elev poses =
          elev_loop self elev_inc az_inc roll_inc radius (elev + elev_inc) (poses @ f elev)"
    using here by (subst elev_loop.simps) (simp add: inner)
  also have "\<dots> = Some ((poses @ f elev) @
        concat (map (\<lambda>k. f (elev + elev_inc + real k * elev_inc)) [0..<n]))"
    by (rule Suc.IH [OF stop go])
  also have "\<dots> = Some (poses @ concat (map (\<lambda>k. f (elev + real k * elev_inc)) [0..<Suc n]))"
    unfolding concat_upt_shift step_shift by simp
  finally show ?case .
qed

lemma radius_loop_unroll:
  assumes inner: "\<And>r ps. elev_loop self elev_inc az_inc roll_inc r (min_elev self) ps = Some (ps @ f r)"
    and "\<not> radius + real n * radius_inc \<le> max_radius self"
    and "\<forall>k<n. radius + real k * radius_inc \<le> max_radius self"
  shows "radius_loop self radius_inc elev_inc az_inc roll_inc radius poses =
           Some (poses @ concat (map (\<lambda>k. f (radius + real k * radius_inc)) [0..<n]))"
  using assms(2,3)
proof (induction n arbitrary: radius poses)
  case 0
  then show ?case
    by (subst radius_loop.simps) simp
next
  case (Suc n)
  from Suc.prems(2) have here: "radius \<le> max_radius self" by force
  have stop: "\<not> radius + radius_inc + real n * radius_inc \<le> max_radius self"
    using Suc.prems(1) by (simp add: algebra_simps)
  have go: "\<forall>k<n. radius + radius_inc + real k * radius_inc \<le> max_radius self"
  proof (intro allI impI)
    fix k assume "k < n"
    then have "radius + real (Suc k) * radius_inc \<le> max_radius self"
      using Suc.prems(2) by blast
    then show "radius + radius_inc + real k * radius_inc \<le> max_radius self"
      by (simp add: algebra_simps)
  qed
  have "radius_loop self radius_inc elev_inc az_inc roll_inc radius poses =
          radius_loop self radius_inc elev_inc az_inc roll_inc (radius + radius_inc)
            (poses @ f radius)"
    using here by (subst radius_loop.simps) (simp add: inner)
  also have "\<dots> = Some ((poses @ f radius) @
        concat (map (\<lambda>k. f (radius + radius_inc + real k * radius_inc)) [0..<n]))"
    by (rule Suc.IH [OF stop go])
  also have "\<dots> =
      Some (poses @ concat (map (\<lambda>k. f (radius + real k * radius_inc)) [0..<Suc n]))"
    unfolding concat_upt_shift step_shift by simp
  finally show ?case .
qed

text \<open>The bounds that the two kinds of loop meet.\<close>

lemma inclusive_bounds:
  assumes "1 \<le> num"
  shows "\<not> lo + real (spec_inclusive_count lo hi num) * inclusive_inc lo hi num \<le> hi"
    and "\<forall>k < spec_inclusive_count lo hi num. lo + real k * inclusive_inc lo hi num \<le> hi"
proof -
  consider (empty) "hi < lo" | (point) "hi = lo" | (one) "lo < hi" "num = 1"
    | (many) "lo < hi" "2 \<le> num"
    using assms by fastforce
  then have "\<not> lo + real (spec_inclusive_count lo hi num) * inclusive_inc lo hi num \<le> hi \<and>
    (\<forall>k < spec_inclusive_count lo hi num. lo + real k * inclusive_inc lo hi num \<le> hi)"
  proof cases
    case empty
    then show ?thesis by (simp add: spec_inclusive_count_def)
  next
    case point
    then show ?thesis by (simp add: spec_inclusive_count_def inclusive_inc_def)
  next
    case one
    then show ?thesis by (simp add: spec_inclusive_count_def inclusive_inc_def)
  next
    case many
    define m where "m = nat (num - 1)"
    have num: "num = int (Suc m)" and cnt: "nat num = Suc m"
      using many(2) by (simp_all add: m_def)
    have m: "0 < real m" using many(2) by (simp add: m_def)
    have inc: "inclusive_inc lo hi num = (hi - lo) / real m"
      using many by (simp add: inclusive_inc_def num)
    have cntd: "spec_inclusive_count lo hi num = Suc m"
      using many(1) by (simp add: spec_inclusive_count_def cnt)
    have last: "lo + real m * ((hi - lo) / real m) = hi"
      using m by simp
    have pos: "0 < (hi - lo) / real m"
      using many(1) m by simp
    have "\<not> lo + real (Suc m) * ((hi - lo) / real m) \<le> hi"
    proof -
      have "lo + real (Suc m) * ((hi - lo) / real m)
              = (lo + real m * ((hi - lo) / real m)) + (hi - lo) / real m"
        by (rule step_last)
      with last pos show ?thesis by simp
    qed
    moreover have "lo + real k * ((hi - lo) / real m) \<le> hi" if "k < Suc m" for k
    proof -
      from that have "real k \<le> real m" by simp
      then have "real k * ((hi - lo) / real m) \<le> real m * ((hi - lo) / real m)"
        using pos by (intro mult_right_mono) simp_all
      with last show ?thesis by linarith
    qed
    ultimately show ?thesis
      unfolding inc cntd by blast
  qed
  then show "\<not> lo + real (spec_inclusive_count lo hi num) * inclusive_inc lo hi num \<le> hi"
    and "\<forall>k < spec_inclusive_count lo hi num. lo + real k * inclusive_inc lo hi num \<le> hi"
    by blast+
qed

lemma halfopen_bounds:
  assumes "1 \<le> num"
  shows "\<not> lo + real (spec_halfopen_count lo hi num) * ((hi - lo) / real_of_int num) < hi"
    and "\<forall>k < spec_halfopen_count lo hi num. lo + real k * ((hi - lo) / real_of_int num) < hi"
proof -
  define m where "m = nat num"
  have num: "real_of_int num = real m" and m: "0 < real m"
    using assms by (simp_all add: m_def)
  show "\<not> lo + real (spec_halfopen_count lo hi num) * ((hi - lo) / real_of_int num) < hi"
    using m unfolding num spec_halfopen_count_def m_def [symmetric] by simp
  show "\<forall>k < spec_halfopen_count lo hi num. lo + real k * ((hi - lo) / real_of_int num) < hi"
  proof (intro allI impI)
    fix k assume k: "k < spec_halfopen_count lo hi num"
    then have lt: "lo < hi" and km: "k < m"
      by (simp_all add: spec_halfopen_count_def m_def split: if_splits)
    have "real k * ((hi - lo) / real m) < real m * ((hi - lo) / real m)"
      using km lt m by (intro mult_strict_right_mono) simp_all
    also have "\<dots> = hi - lo" using m by simp
    finally show "lo + real k * ((hi - lo) / real_of_int num) < hi"
      unfolding num by linarith
  qed
qed

lemma object_to_camera_poses_grid:
  assumes "1 \<le> num_radii self" and "1 \<le> num_elev self"
    and "1 \<le> num_az self" and "1 \<le> num_roll self"
  shows "object_to_camera_poses self = Some (Inr (spec_grid self))"
proof -
  let ?ri = "inclusive_inc (min_radius self) (max_radius self) (num_radii self)"
  let ?ei = "inclusive_inc (min_elev self) (max_elev self) (num_elev self)"
  let ?ai = "(max_az self - min_az self) / real_of_int (num_az self)"
  let ?oi = "(max_roll self - min_roll self) / real_of_int (num_roll self)"
  let ?nr = "spec_inclusive_count (min_radius self) (max_radius self) (num_radii self)"
  let ?ne = "spec_inclusive_count (min_elev self) (max_elev self) (num_elev self)"
  let ?na = "spec_halfopen_count (min_az self) (max_az self) (num_az self)"
  let ?no = "spec_halfopen_count (min_roll self) (max_roll self) (num_roll self)"
  let ?rolls = "\<lambda>radius elev az.
     map (\<lambda>l. camera_pose radius az elev (min_roll self + real l * ?oi)) [0..<?no]"
  let ?azs = "\<lambda>radius elev.
     concat (map (\<lambda>k. ?rolls radius elev (min_az self + real k * ?ai)) [0..<?na])"
  let ?elevs = "\<lambda>radius.
     concat (map (\<lambda>j. ?azs radius (min_elev self + real j * ?ei)) [0..<?ne])"
  have roll: "roll_loop self ?oi radius elev az (min_roll self) ps = Some (ps @ ?rolls radius elev az)"
    for radius elev az ps
    by (rule roll_loop_unroll) (rule halfopen_bounds [OF assms(4)])+
  have az: "az_loop self ?ai ?oi radius elev (min_az self) ps = Some (ps @ ?azs radius elev)"
    for radius elev ps
    by (rule az_loop_unroll [where f = "?rolls radius elev"])
       (rule roll halfopen_bounds [OF assms(3)])+
  have elev: "elev_loop self ?ei ?ai ?oi radius (min_elev self) ps = Some (ps @ ?elevs radius)"
    for radius ps
    by (rule elev_loop_unroll [where f = "?azs radius"])
       (rule az inclusive_bounds [OF assms(2)])+
  have radius: "radius_loop self ?ri ?ei ?ai ?oi (min_radius self) [] =
      Some ([] @ concat (map (\<lambda>i. ?elevs (min_radius self + real i * ?ri)) [0..<?nr]))"
    by (rule radius_loop_unroll [where f = ?elevs])
       (rule elev inclusive_bounds [OF assms(1)])+
  have nz: "num_az self \<noteq> 0" "num_roll self \<noteq> 0"
    using assms(3,4) by simp_all
  show ?thesis
    unfolding object_to_camera_poses_def Let_def radius spec_grid_def
    using nz by simp
qed

lemma length_concat_const:
  assumes "\<And>x. x \<in> set xs \<Longrightarrow> length (f x) = m"
  shows "length (concat (map f xs)) = length xs * m"
  using assms by (induction xs) simp_all

lemma length_spec_grid:
  "length (spec_grid self) =
     spec_inclusive_count (min_radius self) (max_radius self) (num_radii self) *
     spec_inclusive_count (min_elev self) (max_elev self) (num_elev self) *
     spec_halfopen_count (min_az self) (max_az self) (num_az self) *
     spec_halfopen_count (min_roll self) (max_roll self) (num_roll self)"
  unfolding spec_grid_def Let_def
  by (simp add: length_concat_const)

text \<open>
  Claim C2, as stated: with all counts at least one and \<open>min \<le> max\<close> on each axis the
  azimuth and roll loops contribute their configured numbers. The discretizer below meets
  these conditions with \<open>min_az = max_az\<close>; the claimed count is 1, and the call returns
  the empty list, since the half-open azimuth loop is not entered.
\<close>

theorem object_to_camera_poses_empty_az_interval:
  "1 \<le> num_radii example_empty_az \<and> 1 \<le> num_elev example_empty_az \<and>
   1 \<le> num_az example_empty_az \<and> 1 \<le> num_roll example_empty_az \<and>
   min_radius example_empty_az \<le> max_radius example_empty_az \<and>
   min_elev example_empty_az \<le> max_elev example_empty_az \<and>
   min_az example_empty_az \<le> max_az example_empty_az \<and>
   min_roll example_empty_az \<le> max_roll example_empty_az \<and>
   object_to_camera_poses example_empty_az = Some (Inr []) \<and>
   claimed_pose_count example_empty_az = 1"
proof -
  have "spec_grid example_empty_az = []"
    by (simp add: spec_grid_def example_empty_az_def spec_halfopen_count_def)
  moreover have "object_to_camera_poses example_empty_az = Some (Inr (spec_grid example_empty_az))"
    by (rule object_to_camera_poses_grid) (simp_all add: example_empty_az_def)
  ultimately show ?thesis
    by (simp add: example_empty_az_def claimed_pose_count_def)
qed


text \<open>
  Claim C2, amended. With all four counts at least one and \<open>min \<le> max\<close> on each axis, the
  call returns the grid of poses ordered with the radius outermost, then elevation, then
  azimuth, and the roll innermost. Its length is the product of the per-axis counts: for
  radius and elevation 1 when \<open>min = max\<close> and the configured number otherwise; for azimuth
  and roll the configured number when \<open>min < max\<close>, and 0 when \<open>min = max\<close>.
\<close>

theorem object_to_camera_poses_length_and_order:
  assumes "1 \<le> num_radii self" and "1 \<le> num_elev self"
    and "1 \<le> num_az self" and "1 \<le> num_roll self"
    and "min_radius self \<le> max_radius self" and "min_elev self \<le> max_elev self"
    and "min_az self \<le> max_az self" and "min_roll self \<le> max_roll self"
  shows "object_to_camera_poses self = Some (Inr (spec_grid self)) \<and>
         length (spec_grid self) =
           (if min_radius self = max_radius self then 1 else nat (num_radii self)) *
           (if min_elev self = max_elev self then 1 else nat (num_elev self)) *
           (if min_az self = max_az self then 0 else nat (num_az self)) *
           (if min_roll self = max_roll self then 0 else nat (num_roll self))"
proof -
  have "spec_inclusive_count (min_radius self) (max_radius self) (num_radii self) =
          (if min_radius self = max_radius self then 1 else nat (num_radii self))"
    using assms(5) by (simp add: spec_inclusive_count_def)
  moreover have "spec_inclusive_count (min_elev self) (max_elev self) (num_elev self) =
          (if min_elev self = max_elev self then 1 else nat (num_elev self))"
    using assms(6) by (simp add: spec_inclusive_count_def)
  moreover have "spec_halfopen_count (min_az self) (max_az self) (num_az self) =
          (if min_az self = max_az self then 0 else nat (num_az self))"
    using assms(7) by (simp add: spec_halfopen_count_def)
  moreover have "spec_halfopen_count (min_roll self) (max_roll self) (num_roll self) =
          (if min_roll self = max_roll self then 0 else nat (num_roll self))"
    using assms(8) by (simp add: spec_halfopen_count_def)
  ultimately show ?thesis
    using object_to_camera_poses_grid [OF assms(1-4)] length_spec_grid [of self]
    by (simp only:) 
qed

theorem object_to_camera_poses_length_and_order_witness:
  "object_to_camera_poses example_viewsphere = Some (Inr (spec_grid example_viewsphere)) \<and>
   length (spec_grid example_viewsphere) = 8"
  using object_to_camera_poses_length_and_order [of example_viewsphere] by (simp add: example_viewsphere_def)

subsection \<open>Rotations of the generated poses\<close>

lemma transpose3_mat_dot:
  "transpose3 (mat_dot A B) = mat_dot (transpose3 B) (transpose3 A)"
  by (cases A rule: det3.cases; cases B rule: det3.cases) (simp add: algebra_simps)

lemma transpose3_transpose3: "transpose3 (transpose3 A) = A"
  by (cases A rule: det3.cases) simp

lemma mat_dot_assoc: "mat_dot (mat_dot A B) C = mat_dot A (mat_dot B C)"
  by (cases A rule: det3.cases; cases B rule: det3.cases; cases C rule: det3.cases)
     (simp add: algebra_simps)

lemma mat_dot_eye3: "mat_dot eye3 A = A" "mat_dot A eye3 = A"
  by (cases A rule: det3.cases; simp add: eye3_def)+

lemma det3_transpose3: "det3 (transpose3 A) = det3 A"
  by (cases A rule: det3.cases) (simp add: algebra_simps)

lemma det3_mat_dot: "det3 (mat_dot A B) = det3 A * det3 B"
  by (cases A rule: det3.cases; cases B rule: det3.cases) (simp add: algebra_simps)

lemma det3_eye3: "det3 eye3 = 1"
  by (simp add: eye3_def)

lemma mat_dot_adj3: "mat_dot A (adj3 A) = smul (det3 A) eye3"
  by (cases A rule: det3.cases) (simp add: eye3_def algebra_simps)

lemma mat_dot_smul: "mat_dot A (smul k B) = smul k (mat_dot A B)"
  by (cases A rule: det3.cases; cases B rule: det3.cases) (simp add: algebra_simps)

lemma smul_cancel:
  assumes "k \<noteq> 0" and "smul k A = smul k B"
  shows "A = B"
  using assms by (cases A rule: det3.cases; cases B rule: det3.cases) simp

lemma orthonormal_transpose3:
  assumes "orthonormal A"
  shows "orthonormal (transpose3 A)"
proof -
  from assms have ata: "mat_dot (transpose3 A) A = eye3"
    by (simp add: orthonormal_def)
  then have "det3 (mat_dot (transpose3 A) A) = 1"
    by (simp add: det3_eye3)
  then have "det3 A * det3 A = 1"
    by (simp add: det3_mat_dot det3_transpose3)
  then have nz: "det3 A \<noteq> 0" by auto
  have "adj3 A = mat_dot (mat_dot (transpose3 A) A) (adj3 A)"
    by (simp add: ata mat_dot_eye3)
  also have "\<dots> = mat_dot (transpose3 A) (smul (det3 A) eye3)"
    by (simp only: mat_dot_assoc mat_dot_adj3)
  also have "\<dots> = smul (det3 A) (transpose3 A)"
    by (simp only: mat_dot_smul mat_dot_eye3)
  finally have "mat_dot A (adj3 A) = smul (det3 A) (mat_dot A (transpose3 A))"
    by (simp only: mat_dot_smul)
  then have "smul (det3 A) (mat_dot A (transpose3 A)) = smul (det3 A) eye3"
    by (simp only: mat_dot_adj3)
  from smul_cancel [OF nz this] show ?thesis
    by (simp add: orthonormal_def transpose3_transpose3)
qed

lemma orthonormal_mat_dot:
  assumes "orthonormal A" and "orthonormal B"
  shows "orthonormal (mat_dot A B)"
proof -
  have "mat_dot (transpose3 (mat_dot A B)) (mat_dot A B) =
          mat_dot (transpose3 B) (mat_dot (mat_dot (transpose3 A) A) B)"
    by (simp only: transpose3_mat_dot mat_dot_assoc)
  also have "\<dots> = eye3"
    using assms by (simp add: orthonormal_def mat_dot_eye3)
  finally show ?thesis by (simp add: orthonormal_def)
qed

lemma norm3_sqrt_vdot: "norm3 v = sqrt (vdot v v)"
  by (cases v rule: norm3.cases) (simp add: power2_eq_square)

lemma vdot_self_nonneg: "0 \<le> vdot v v"
  by (cases v rule: norm3.cases) simp

lemma norm3_eq_1_iff: "norm3 v = 1 \<longleftrightarrow> vdot v v = 1"
  by (simp add: norm3_sqrt_vdot)

lemma norm3_eq_0_iff: "norm3 v = 0 \<longleftrightarrow> vdot v v = 0"
  by (simp add: norm3_sqrt_vdot)

lemma vdot_vdiv: "vdot (vdiv v k) (vdiv w k) = vdot v w / (k * k)"
  by (cases v rule: norm3.cases; cases w rule: norm3.cases) (simp add: add_divide_distrib)

lemma vdot_vdiv_right: "vdot z (vdiv w k) = vdot z w / k"
  by (cases z rule: norm3.cases; cases w rule: norm3.cases) (simp add: add_divide_distrib)

lemma vdiv_one: "vdiv v 1 = v"
  by (cases v rule: norm3.cases) simp

lemma vdot_vneg_vneg: "vdot (vneg v) (vneg v) = vdot v v"
  by (cases v rule: norm3.cases) simp

lemma vdot_vneg_right: "vdot z (vneg v) = - vdot z v"
  by (cases v rule: norm3.cases; cases z rule: norm3.cases) simp

lemma normalized_unit:
  assumes "norm3 v \<noteq> 0"
  shows "vdot (vdiv v (norm3 v)) (vdiv v (norm3 v)) = 1"
proof -
  have "norm3 v * norm3 v = vdot v v"
    by (simp add: norm3_sqrt_vdot vdot_self_nonneg)
  moreover have "vdot v v \<noteq> 0"
    using assms by (simp add: norm3_eq_0_iff)
  ultimately show ?thesis
    by (simp add: vdot_vdiv)
qed

lemma vdot_cross_cross:
  "vdot (cross z x) (cross z x) = vdot z z * vdot x x - vdot z x * vdot z x"
  by (cases z rule: norm3.cases; cases x rule: norm3.cases) (simp add: algebra_simps)

lemma vdot_cross_orth:
  "vdot x (cross z x) = 0" "vdot (cross z x) x = 0"
  "vdot z (cross z x) = 0" "vdot (cross z x) z = 0"
  by (cases z rule: norm3.cases; cases x rule: norm3.cases; simp add: algebra_simps)+

lemma vdot_commute: "vdot v w = vdot w v"
  by (cases v rule: norm3.cases; cases w rule: norm3.cases) (simp add: algebra_simps)

lemma gram_np_c:
  "mat_dot (transpose3 (np_c x y z)) (np_c x y z) =
     ((vdot x x, vdot x y, vdot x z), (vdot y x, vdot y y, vdot y z),
      (vdot z x, vdot z y, vdot z z))"
  by (cases x rule: norm3.cases; cases y rule: norm3.cases; cases z rule: norm3.cases) simp

lemma det3_np_c_cross:
  "det3 (np_c x (cross z x) z) = vdot x x * vdot z z - vdot z x * vdot z x"
  by (cases z rule: norm3.cases; cases x rule: norm3.cases) (simp add: algebra_simps)

text \<open>A unit vector \<open>x\<close> orthogonal to a unit vector \<open>z\<close> gives a right-handed frame.\<close>

lemma frame_proper:
  assumes "vdot z z = 1" and "vdot x x = 1" and "vdot z x = 0"
  shows "orthonormal (np_c x (cross z x) z)" and "det3 (np_c x (cross z x) z) = 1"
proof -
  have "vdot (cross z x) (cross z x) = 1"
    using assms by (simp add: vdot_cross_cross)
  moreover have "vdot x z = 0"
    using assms(3) by (simp add: vdot_commute)
  ultimately show "orthonormal (np_c x (cross z x) z)"
    using assms by (simp add: orthonormal_def gram_np_c eye3_def vdot_cross_orth)
  show "det3 (np_c x (cross z x) z) = 1"
    using assms by (simp add: det3_np_c_cross)
qed

lemma cross_normalized:
  assumes "vdot z z = 1" and "vdot x x = 1" and "vdot z x = 0"
  shows "vdiv (cross z x) (norm3 (cross z x)) = cross z x"
proof -
  have "norm3 (cross z x) = 1"
    using assms by (simp add: norm3_eq_1_iff vdot_cross_cross)
  then show ?thesis by (simp add: vdiv_one)
qed

lemma camera_xy_par_obj_frame:
  assumes "vdot cz cz = 1"
  shows "\<exists>cx. camera_xy_par_obj cz = (cx, cross cz cx) \<and> vdot cx cx = 1 \<and> vdot cz cx = 0"
proof -
  define c0 :: vec3 where "c0 = (fst (snd cz), - fst cz, 0)"
  define c1 :: vec3 where "c1 = (if norm3 c0 = 0 then (1, 0, 0) else c0)"
  define cx where "cx = vdiv c1 (norm3 c1)"
  have orth0: "vdot cz c0 = 0"
    by (cases cz rule: norm3.cases) (simp add: c0_def)
  have unit: "vdot cx cx = 1" and orth: "vdot cz cx = 0"
  proof -
    show "vdot cx cx = 1"
    proof (cases "norm3 c0 = 0")
      case True
      then show ?thesis by (simp add: cx_def c1_def)
    next
      case False
      then show ?thesis by (simp add: cx_def c1_def normalized_unit)
    qed
    show "vdot cz cx = 0"
    proof (cases "norm3 c0 = 0")
      case True
      then have "vdot c0 c0 = 0" by (simp add: norm3_eq_0_iff)
      then have "fst cz = 0"
        by (cases cz rule: norm3.cases)
           (simp add: c0_def sum_squares_eq_zero_iff [unfolded power2_eq_square])
      then have "vdot cz (1, 0, 0) = 0"
        by (cases cz rule: norm3.cases) simp
      with True show ?thesis by (simp add: cx_def c1_def)
    next
      case False
      then show ?thesis by (simp add: cx_def c1_def vdot_vdiv_right orth0)
    qed
  qed
  have unit': "vdot (vneg cx) (vneg cx) = 1"
    using unit by (simp only: vdot_vneg_vneg)
  have orth': "vdot cz (vneg cx) = 0"
    using orth by (simp add: vdot_vneg_right)
  have cy: "vdiv (cross cz cx) (norm3 (cross cz cx)) = cross cz cx"
    using assms unit orth by (rule cross_normalized)
  have cy': "vdiv (cross cz (vneg cx)) (norm3 (cross cz (vneg cx))) = cross cz (vneg cx)"
    using assms unit' orth' by (rule cross_normalized)
  have eq: "camera_xy_par_obj cz =
          (if snd (snd (cross cz cx)) > 0 then (vneg cx, cross cz (vneg cx))
           else (cx, cross cz cx))"
    unfolding camera_xy_par_obj_def Let_def c0_def [symmetric] c1_def [symmetric]
      cx_def [symmetric] cy cy' ..
  show ?thesis
  proof (cases "snd (snd (cross cz cx)) > 0")
    case True
    with eq have "camera_xy_par_obj cz = (vneg cx, cross cz (vneg cx))" by simp
    with unit' orth' show ?thesis by blast
  next
    case False
    with eq have "camera_xy_par_obj cz = (cx, cross cz cx)" by simp
    with unit orth show ?thesis by blast
  qed
qed

lemma norm3_vneg: "norm3 (vneg v) = norm3 v"
  by (cases v rule: norm3.cases) simp

lemma norm3_sph2cart: "norm3 (sph2cart radius az elev) = \<bar>radius\<bar>"
  by (simp add: sph2cart_def sph2cart_sum_squares)

lemma camera_z_obj_unit:
  assumes "radius \<noteq> 0"
  shows "vdot (camera_z_obj (sph2cart radius az elev))
              (camera_z_obj (sph2cart radius az elev)) = 1"
proof -
  let ?c = "sph2cart radius az elev"
  have "norm3 (vneg ?c) \<noteq> 0"
    using assms by (simp add: norm3_vneg norm3_sph2cart)
  then have "vdot (vdiv (vneg ?c) (norm3 (vneg ?c))) (vdiv (vneg ?c) (norm3 (vneg ?c))) = 1"
    by (rule normalized_unit)
  then show ?thesis
    by (simp only: camera_z_obj_def norm3_vneg)
qed

lemma R_camera_par_camera_proper:
  "orthonormal (R_camera_par_camera roll)" "det3 (R_camera_par_camera roll) = 1"
proof -
  have sc: "sin roll * sin roll + cos roll * cos roll = 1"
    using sin_cos_squared_add3 [of roll] by (simp add: add.commute)
  show "orthonormal (R_camera_par_camera roll)"
    by (simp add: orthonormal_def R_camera_par_camera_def eye3_def sc)
  show "det3 (R_camera_par_camera roll) = 1"
    by (simp add: R_camera_par_camera_def)
qed

lemma camera_pose_rotation_proper:
  assumes "radius \<noteq> 0"
  shows "orthonormal (rotation (camera_pose radius az elev roll))"
    and "det3 (rotation (camera_pose radius az elev roll)) = 1"
proof -
  let ?cz = "camera_z_obj (sph2cart radius az elev)"
  have z: "vdot ?cz ?cz = 1"
    using assms by (rule camera_z_obj_unit)
  from camera_xy_par_obj_frame [OF z] obtain cx where
    xy: "camera_xy_par_obj ?cz = (cx, cross ?cz cx)" and
    x: "vdot cx cx = 1" and zx: "vdot ?cz cx = 0"
    by blast
  let ?par = "np_c cx (cross ?cz cx) ?cz"
  let ?R = "mat_dot ?par (R_camera_par_camera roll)"
  have rot: "rotation (camera_pose radius az elev roll) = transpose3 ?R"
    by (simp add: camera_pose_def Let_def xy inverse_tf_def)
  have "orthonormal ?R"
    using frame_proper(1) [OF z x zx] R_camera_par_camera_proper(1)
    by (rule orthonormal_mat_dot)
  then show "orthonormal (rotation (camera_pose radius az elev roll))"
    unfolding rot by (rule orthonormal_transpose3)
  have "det3 ?R = 1"
    by (simp only: det3_mat_dot frame_proper(2) [OF z x zx] R_camera_par_camera_proper(2)
        mult_1)
  then show "det3 (rotation (camera_pose radius az elev roll)) = 1"
    unfolding rot by (simp only: det3_transpose3)
qed

lemma set_spec_grid:
  assumes "T \<in> set (spec_grid self)"
  shows "\<exists>i az elev roll.
           i < spec_inclusive_count (min_radius self) (max_radius self) (num_radii self) \<and>
           T = camera_pose
                 (min_radius self + real i *
                    inclusive_inc (min_radius self) (max_radius self) (num_radii self))
                 az elev roll"
  using assms unfolding spec_grid_def Let_def by fastforce

lemma camera_pose_pole:
  "rotation (camera_pose 1 0 0 0) = ((1, 0, 0), (0, - 1, 0), (0, 0, - 1))"
  by (simp add: camera_pose_def sph2cart_def camera_z_obj_def camera_xy_par_obj_def
      R_camera_par_camera_def inverse_tf_def Let_def)

lemma example_pole_first: "camera_pose 1 0 0 0 \<in> set (spec_grid example_pole)"
proof -
  have "spec_grid example_pole =
          map (\<lambda>k. camera_pose 1 (real k) 0 0) [0..<4]"
    by (simp add: spec_grid_def example_pole_def spec_inclusive_count_def
        spec_halfopen_count_def inclusive_inc_def)
  then show ?thesis
    by (simp add: upt_rec)
qed

text \<open>
  Claim C3. With all counts at least one and every radius sample different from zero, the
  call returns, and the rotation \<open>R\<close> of every transform it returns is orthonormal,
  \<open>R\<^sup>T R = I\<close>, with determinant \<open>+1\<close>, exactly. This includes the poles, where the
  viewing axis is along the world z axis and the x axis falls back to the world x axis.
\<close>

theorem object_to_camera_poses_rotations_proper:
  assumes "1 \<le> num_radii self" and "1 \<le> num_elev self"
    and "1 \<le> num_az self" and "1 \<le> num_roll self"
    and "\<forall>i < spec_inclusive_count (min_radius self) (max_radius self) (num_radii self).
           min_radius self + real i *
             inclusive_inc (min_radius self) (max_radius self) (num_radii self) \<noteq> 0"
  shows "\<exists>poses. object_to_camera_poses self = Some (Inr poses) \<and>
           (\<forall>T \<in> set poses. orthonormal (rotation T) \<and> det3 (rotation T) = 1)"
proof (intro exI conjI ballI)
  show "object_to_camera_poses self = Some (Inr (spec_grid self))"
    using assms(1-4) by (rule object_to_camera_poses_grid)
next
  fix T assume "T \<in> set (spec_grid self)"
  from set_spec_grid [OF this] assms(5) obtain radius az elev roll where
    "T = camera_pose radius az elev roll" and "radius \<noteq> 0"
    by blast
  then show "orthonormal (rotation T)" and "det3 (rotation T) = 1"
    by (simp_all add: camera_pose_rotation_proper)
qed


theorem object_to_camera_poses_rotations_proper_witness:
  "object_to_camera_poses example_pole = Some (Inr (spec_grid example_pole)) \<and>
   camera_pose 1 0 0 0 \<in> set (spec_grid example_pole) \<and>
   rotation (camera_pose 1 0 0 0) = ((1, 0, 0), (0, - 1, 0), (0, 0, - 1)) \<and>
   orthonormal (rotation (camera_pose 1 0 0 0)) \<and>
   det3 (rotation (camera_pose 1 0 0 0)) = 1"
proof -
  have counts: "1 \<le> num_radii example_pole" "1 \<le> num_elev example_pole"
      "1 \<le> num_az example_pole" "1 \<le> num_roll example_pole"
    by (simp_all add: example_pole_def)
  have nz: "\<forall>i < spec_inclusive_count (min_radius example_pole) (max_radius example_pole)
                   (num_radii example_pole).
              min_radius example_pole + real i *
                inclusive_inc (min_radius example_pole) (max_radius example_pole)
                  (num_radii example_pole) \<noteq> 0"
    by (simp add: example_pole_def spec_inclusive_count_def inclusive_inc_def)
  have grid: "object_to_camera_poses example_pole = Some (Inr (spec_grid example_pole))"
    using counts by (rule object_to_camera_poses_grid)
  from object_to_camera_poses_rotations_proper [OF counts nz] grid
  have "\<forall>T \<in> set (spec_grid example_pole). orthonormal (rotation T) \<and> det3 (rotation T) = 1"
    by simp
  with example_pole_first grid camera_pose_pole show ?thesis
    by blast
qed

end
